theory Spec2Isabelle
  imports Complex_Main "HOL-Library.Word" "HOL-Library.Finite_Map"
begin

section \<open>The data model of nsqd (nsqd/topic.go, nsqd/nsqd.go)\<close>

text \<open>
  The Go code is embedded shallowly. Pointers to messages are references into an
  explicit message heap, so that "the same instance" and "a fresh copy" can be told
  apart. A Go \<^verbatim>\<open>error\<close> is an \<open>error option\<close> (\<open>None\<close> is \<^verbatim>\<open>nil\<close>).
  \<^verbatim>\<open>uint64\<close> counters are \<open>64 word\<close> (\<^verbatim>\<open>atomic.AddUint64\<close> wraps), the
  \<^verbatim>\<open>int32\<close> flags are \<open>32 word\<close>. Go's \<^verbatim>\<open>int\<close> is taken at its 64-bit width;
  sizes and lengths are \<open>nat\<close> and are converted with \<open>of_nat\<close> exactly where the
  code converts with \<^verbatim>\<open>uint64(...)\<close>. Calls to \<^verbatim>\<open>logf\<close> leave no state behind and
  are left out.
\<close>

type_synonym byte = "8 word"
type_synonym error = string
type_synonym MessageID = "byte list"
type_synonym msg_ref = nat

text \<open>
  Modelled from the spec: the \<^verbatim>\<open>Message\<close> struct (message.go is not among the
  sources). The spec lists id, body, timestamp, a 16-bit attempts counter, the deferred
  delay, and the fields used while the message sits in a priority queue.
\<close>

record Message =
  ID :: MessageID
  Body :: "byte list"
  Timestamp :: "64 word"
  Attempts :: "16 word"
  deferred :: "64 word"
  clientID :: "64 word"
  pri :: "64 word"
  index :: int

text \<open>
  The message heap: every reference below \<open>next_ref\<close> has been allocated.
\<close>

record msg_heap =
  cells :: "msg_ref \<Rightarrow> Message"
  next_ref :: msg_ref

text \<open>
  Modelled from the spec: \<^verbatim>\<open>NewMessage(id, body)\<close> (message.go) allocates a message
  with the given id and body, stamped with the current time, with no attempts and no
  deferral. The clock reading is the argument \<open>now\<close>.
\<close>

definition NewMessage :: "64 word \<Rightarrow> MessageID \<Rightarrow> byte list \<Rightarrow> msg_heap \<Rightarrow> msg_ref \<times> msg_heap" where
  "NewMessage now i b h =
     (next_ref h,
      h\<lparr>cells := (cells h)(next_ref h :=
           \<lparr>ID = i, Body = b, Timestamp = now, Attempts = 0, deferred = 0,
            clientID = 0, pri = 0, index = 0\<rparr>),
        next_ref := Suc (next_ref h)\<rparr>)"

text \<open>
  A channel of a topic (channel.go is not among the sources): the topic code only uses
  its name and calls its methods, which are recorded as effects, as are the calls of
  the deletion callback and of \<^verbatim>\<open>Notify\<close>, the close of \<^verbatim>\<open>exitChan\<close> and the
  signal on \<^verbatim>\<open>channelUpdateChan\<close>. \<open>ChansDeleted cs\<close> and \<open>ChansClosed cs\<close> stand
  for \<^verbatim>\<open>Delete()\<close> or \<^verbatim>\<open>Close()\<close> called on every channel of \<open>cs\<close>, in the order
  in which Go ranges over the map.
\<close>

record Channel =
  chan_name :: string
  chan_id :: nat

datatype effect =
    ChanPutMessage Channel msg_ref
  | ChanPutMessageDeferred Channel msg_ref "64 word"
  | ChanDelete Channel
  | ChansDeleted "Channel fset"
  | ChansClosed "Channel fset"
  | ChannelUpdateSignal
  | DeleteCallback string
  | NotifyTopic string
  | CloseExitChan

text \<open>
  The \<^verbatim>\<open>BackendQueue\<close> interface (go-diskqueue or the dummy queue of an ephemeral
  topic): a method table over a backend state \<open>'b\<close>.
\<close>

record 'b BackendQueue =
  bq_Put :: "byte list \<Rightarrow> 'b \<Rightarrow> error option \<times> 'b"
  bq_Close :: "'b \<Rightarrow> error option \<times> 'b"
  bq_Delete :: "'b \<Rightarrow> error option \<times> 'b"
  bq_Empty :: "'b \<Rightarrow> error option \<times> 'b"
  bq_Depth :: "'b \<Rightarrow> int"

text \<open>
  The topic. \<open>memoryMsgChan\<close> is the buffer of the Go channel, oldest first, and
  \<open>memCap\<close> its capacity (\<^verbatim>\<open>MemQueueSize\<close>); \<open>exitChan_closed\<close> tells whether
  \<^verbatim>\<open>exitChan\<close> has been closed; \<open>deleter\<close> is the \<^verbatim>\<open>sync.Once\<close>: true once it has
  run. A Go channel also has its waiting receivers: \<open>receiver_parked\<close> tells that
  the pump is blocked in its \<^verbatim>\<open>select\<close> with a receive on \<^verbatim>\<open>memoryMsgChan\<close>, so that a
  send is taken at once, whatever the capacity, and \<open>handed_over\<close> is the message
  the pump has received in that way, past the buffer, and has not yet fanned out.
\<close>

record 'b Topic =
  messageCount :: "64 word"
  messageBytes :: "64 word"
  name :: string
  channelMap :: "(string, Channel) fmap"
  backend :: 'b
  memoryMsgChan :: "msg_ref list"
  memCap :: nat
  exitChan_closed :: bool
  exitFlag :: "32 word"
  ephemeral :: bool
  deleter :: bool
  paused :: "32 word"
  started :: bool
  receiver_parked :: bool
  handed_over :: "msg_ref option"

text \<open>
  What a topic reaches through \<^verbatim>\<open>t.ctx.nsqd\<close> and the package: the health sentinel
  \<^verbatim>\<open>errValue\<close> and the buffer pool \<^verbatim>\<open>bp\<close>.
\<close>

record ctx =
  errValue :: "error option"
  bp :: "byte list list"

definition SetHealth :: "error option \<Rightarrow> ctx \<Rightarrow> ctx" where
  "SetHealth err c = c\<lparr>errValue := err\<rparr>"

definition IsHealthy :: "ctx \<Rightarrow> bool" where
  "IsHealthy c = (errValue c = None)"

text \<open>
  Modelled from the spec: the buffer pool (buffer_pool.go), which reuses encode buffers
  on the spill path. \<^verbatim>\<open>bufferPoolGet\<close> takes a pooled buffer, or a new empty one when
  the pool is empty; \<^verbatim>\<open>bufferPoolPut\<close> gives it back.
\<close>

definition bufferPoolGet :: "ctx \<Rightarrow> byte list \<times> ctx" where
  "bufferPoolGet c = (case bp c of [] \<Rightarrow> ([], c) | b # bs \<Rightarrow> (b, c\<lparr>bp := bs\<rparr>))"

definition bufferPoolPut :: "byte list \<Rightarrow> ctx \<Rightarrow> ctx" where
  "bufferPoolPut b c = c\<lparr>bp := b # bp c\<rparr>"

text \<open>
  Modelled from the spec: the wire framing on spill (message.go): the timestamp as a
  big-endian \<^verbatim>\<open>uint64\<close>, the attempts as a \<^verbatim>\<open>uint16\<close>, the 16 bytes of the id, the
  body. \<^verbatim>\<open>writeMessageToBackend\<close> resets the buffer, writes the frame into it and
  puts the buffer's bytes to the backend; it returns the buffer as it leaves it.
\<close>

definition be_bytes :: "nat \<Rightarrow> 'a::len word \<Rightarrow> byte list" where
  "be_bytes k w = map (\<lambda>i. ucast (drop_bit (8 * i) w)) (rev [0..<k])"

definition WriteTo :: "Message \<Rightarrow> byte list \<Rightarrow> byte list" where
  "WriteTo m buf = buf @ be_bytes 8 (Timestamp m) @ be_bytes 2 (Attempts m) @ ID m @ Body m"

definition writeMessageToBackend ::
  "'b BackendQueue \<Rightarrow> byte list \<Rightarrow> Message \<Rightarrow> 'b \<Rightarrow> error option \<times> byte list \<times> 'b" where
  "writeMessageToBackend bq buf m b =
     (let buf' = WriteTo m [];
          (err, b') = bq_Put bq buf' b
      in (err, buf', b'))"

section \<open>Publishing to a topic: put, PutMessage, PutMessages\<close>

text \<open>
  \<^verbatim>\<open>put\<close>: the \<^verbatim>\<open>select\<close> sends to \<^verbatim>\<open>memoryMsgChan\<close> when the send does not
  block. A send on a Go channel does not block when a receiver is parked on the
  channel, which takes the message directly (the buffer is then empty), or when the
  buffer has room. Otherwise the \<^verbatim>\<open>default\<close> branch writes the message to the backend
  with a pooled buffer, stores the result in the health sentinel and returns the error,
  if any.
\<close>

definition put ::
  "'b BackendQueue \<Rightarrow> msg_heap \<Rightarrow> ctx \<Rightarrow> 'b Topic \<Rightarrow> msg_ref \<Rightarrow> error option \<times> ctx \<times> 'b Topic" where
  "put bq h c t m =
     (if receiver_parked t
      then (None, c, t\<lparr>receiver_parked := False, handed_over := Some m\<rparr>)
      else if length (memoryMsgChan t) < memCap t
      then (None, c, t\<lparr>memoryMsgChan := memoryMsgChan t @ [m]\<rparr>)
      else
        (let (b, c1) = bufferPoolGet c;
             (err, b', be') = writeMessageToBackend bq b (cells h m) (backend t);
             c2 = bufferPoolPut b' c1;
             c3 = SetHealth err c2
         in (err, c3, t\<lparr>backend := be'\<rparr>)))"

definition PutMessage ::
  "'b BackendQueue \<Rightarrow> msg_heap \<Rightarrow> ctx \<Rightarrow> 'b Topic \<Rightarrow> msg_ref \<Rightarrow> error option \<times> ctx \<times> 'b Topic" where
  "PutMessage bq h c t m =
     (if exitFlag t = 1 then (Some ''exiting'', c, t)
      else
        (case put bq h c t m of
           (Some err, c', t') \<Rightarrow> (Some err, c', t')
         | (None, c', t') \<Rightarrow>
             (None, c',
              t'\<lparr>messageCount := messageCount t' + 1,
                 messageBytes := messageBytes t' + of_nat (length (Body (cells h m)))\<rparr>)))"

text \<open>
  The loop of \<^verbatim>\<open>PutMessages\<close>: \<open>i\<close> is the index of the head of the remaining
  messages and \<open>tb\<close> is \<^verbatim>\<open>messageTotalBytes\<close>.
\<close>

fun PutMessages_loop ::
  "'b BackendQueue \<Rightarrow> msg_heap \<Rightarrow> nat \<Rightarrow> nat \<Rightarrow> ctx \<Rightarrow> 'b Topic \<Rightarrow> msg_ref list
     \<Rightarrow> error option \<times> ctx \<times> 'b Topic" where
  "PutMessages_loop bq h i tb c t [] =
     (None, c,
      t\<lparr>messageBytes := messageBytes t + of_nat tb,
        messageCount := messageCount t + of_nat i\<rparr>)"
| "PutMessages_loop bq h i tb c t (m # ms) =
     (case put bq h c t m of
        (Some err, c', t') \<Rightarrow>
          (Some err, c',
           t'\<lparr>messageCount := messageCount t' + of_nat i,
              messageBytes := messageBytes t' + of_nat tb\<rparr>)
      | (None, c', t') \<Rightarrow>
          PutMessages_loop bq h (Suc i) (tb + length (Body (cells h m))) c' t' ms)"

definition PutMessages ::
  "'b BackendQueue \<Rightarrow> msg_heap \<Rightarrow> ctx \<Rightarrow> 'b Topic \<Rightarrow> msg_ref list \<Rightarrow> error option \<times> ctx \<times> 'b Topic" where
  "PutMessages bq h c t msgs =
     (if exitFlag t = 1 then (Some ''exiting'', c, t)
      else PutMessages_loop bq h 0 0 c t msgs)"

definition Depth :: "'b BackendQueue \<Rightarrow> 'b Topic \<Rightarrow> int" where
  "Depth bq t = int (length (memoryMsgChan t)) + bq_Depth bq (backend t)"

text \<open>
  The state after a run of \<^verbatim>\<open>put\<close> calls that all succeed (\<open>None\<close> as soon as one
  fails), and the total body length of a batch: the vocabulary in which the counters of
  \<^verbatim>\<open>PutMessages\<close> are stated.
\<close>

fun put_all ::
  "'b BackendQueue \<Rightarrow> msg_heap \<Rightarrow> ctx \<Rightarrow> 'b Topic \<Rightarrow> msg_ref list \<Rightarrow> (ctx \<times> 'b Topic) option" where
  "put_all bq h c t [] = Some (c, t)"
| "put_all bq h c t (m # ms) =
     (case put bq h c t m of
        (None, c', t') \<Rightarrow> put_all bq h c' t' ms
      | (Some err, c', t') \<Rightarrow> None)"

definition body_bytes :: "msg_heap \<Rightarrow> msg_ref list \<Rightarrow> nat" where
  "body_bytes h ms = sum_list (map (\<lambda>m. length (Body (cells h m))) ms)"

section \<open>Shutting a topic down: exit, Delete, Close\<close>

text \<open>
  \<^verbatim>\<open>flush\<close> drains the memory channel into the backend with a buffer of its own and
  ignores write errors; \<^verbatim>\<open>Empty\<close> drains it into nothing and empties the backend.
\<close>

fun flush_loop :: "'b BackendQueue \<Rightarrow> msg_heap \<Rightarrow> msg_ref list \<Rightarrow> 'b \<Rightarrow> 'b" where
  "flush_loop bq h [] b = b"
| "flush_loop bq h (msg # ms) b =
     (let (err, msgBuf, b') = writeMessageToBackend bq [] (cells h msg) b
      in flush_loop bq h ms b')"

definition flush :: "'b BackendQueue \<Rightarrow> msg_heap \<Rightarrow> 'b Topic \<Rightarrow> error option \<times> 'b Topic" where
  "flush bq h t =
     (None, t\<lparr>backend := flush_loop bq h (memoryMsgChan t) (backend t), memoryMsgChan := []\<rparr>)"

definition Empty :: "'b BackendQueue \<Rightarrow> 'b Topic \<Rightarrow> error option \<times> 'b Topic" where
  "Empty bq t =
     (let (err, b') = bq_Empty bq (backend t)
      in (err, t\<lparr>memoryMsgChan := [], backend := b'\<rparr>))"

text \<open>
  \<^verbatim>\<open>exit\<close>: the compare-and-swap of \<open>exitFlag\<close> from 0 to 1 decides whether this call
  shuts the topic down. When deleting, every channel is removed from the map under its
  own name and deleted, the queues are emptied and the backend deleted; when closing,
  every channel is closed, the memory channel is flushed and the backend closed. Once
  \<^verbatim>\<open>exitChan\<close> is closed and the wait for the pump is over, no receiver is parked.
\<close>

definition exit :: "'b BackendQueue \<Rightarrow> msg_heap \<Rightarrow> bool \<Rightarrow> 'b Topic
     \<Rightarrow> error option \<times> 'b Topic \<times> effect list" where
  "exit bq h deleted t =
     (if exitFlag t \<noteq> 0 then (Some ''exiting'', t, [])
      else
        (let t1 = t\<lparr>exitFlag := 1\<rparr>;
             e1 = (if deleted then [NotifyTopic (name t1)] else []);
             t2 = t1\<lparr>exitChan_closed := True, receiver_parked := False\<rparr>;
             cs = fmran (channelMap t2)
         in if deleted then
              (let t3 = t2\<lparr>channelMap := fmdrop_fset (chan_name |`| cs) (channelMap t2)\<rparr>;
                   (e, t4) = Empty bq t3;
                   (err, b') = bq_Delete bq (backend t4)
               in (err, t4\<lparr>backend := b'\<rparr>, e1 @ [CloseExitChan, ChansDeleted cs]))
            else
              (let (e, t3) = flush bq h t2;
                   (err, b') = bq_Close bq (backend t3)
               in (err, t3\<lparr>backend := b'\<rparr>, e1 @ [CloseExitChan, ChansClosed cs]))))"

definition Delete :: "'b BackendQueue \<Rightarrow> msg_heap \<Rightarrow> 'b Topic
     \<Rightarrow> error option \<times> 'b Topic \<times> effect list" where
  "Delete bq h t = exit bq h True t"

definition Close :: "'b BackendQueue \<Rightarrow> msg_heap \<Rightarrow> 'b Topic
     \<Rightarrow> error option \<times> 'b Topic \<times> effect list" where
  "Close bq h t = exit bq h False t"

text \<open>A series of \<^verbatim>\<open>Delete\<close> (\<open>True\<close>) and \<^verbatim>\<open>Close\<close> (\<open>False\<close>) calls on one topic.\<close>

fun exit_calls :: "'b BackendQueue \<Rightarrow> msg_heap \<Rightarrow> bool list \<Rightarrow> 'b Topic
     \<Rightarrow> (error option \<times> effect list) list \<times> 'b Topic" where
  "exit_calls bq h [] t = ([], t)"
| "exit_calls bq h (d # ds) t =
     (let (r, t', es) = (if d then Delete bq h t else Close bq h t);
          (rs, t'') = exit_calls bq h ds t'
      in ((r, es) # rs, t''))"

section \<open>The channels of a topic: GetChannel, DeleteExistingChannel\<close>

text \<open>
  Modelled from the spec: \<^verbatim>\<open>NewChannel\<close> (channel.go) creates the channel of the given
  name; \<open>cid\<close> is the identity of the new object.
\<close>

definition NewChannel :: "nat \<Rightarrow> string \<Rightarrow> Channel" where
  "NewChannel cid channelName = \<lparr>chan_name = channelName, chan_id = cid\<rparr>"

definition getOrCreateChannel :: "nat \<Rightarrow> string \<Rightarrow> 'b Topic \<Rightarrow> (Channel \<times> bool) \<times> 'b Topic" where
  "getOrCreateChannel cid channelName t =
     (case fmlookup (channelMap t) channelName of
        None \<Rightarrow>
          (let channel = NewChannel cid channelName
           in ((channel, True), t\<lparr>channelMap := fmupd channelName channel (channelMap t)\<rparr>))
      | Some channel \<Rightarrow> ((channel, False), t))"

text \<open>
  The \<^verbatim>\<open>select\<close> that tells the pump of a change: it sends on
  \<^verbatim>\<open>channelUpdateChan\<close>, or returns at once when \<^verbatim>\<open>exitChan\<close> is closed.
\<close>

definition updateSignal :: "'b Topic \<Rightarrow> effect list" where
  "updateSignal t = (if exitChan_closed t then [] else [ChannelUpdateSignal])"

definition GetChannel :: "nat \<Rightarrow> string \<Rightarrow> 'b Topic \<Rightarrow> Channel \<times> 'b Topic \<times> effect list" where
  "GetChannel cid channelName t =
     (let ((channel, isNew), t') = getOrCreateChannel cid channelName t
      in (channel, t', if isNew then updateSignal t' else []))"

definition GetExistingChannel :: "string \<Rightarrow> 'b Topic \<Rightarrow> error + Channel" where
  "GetExistingChannel channelName t =
     (case fmlookup (channelMap t) channelName of
        None \<Rightarrow> Inl ''channel does not exist''
      | Some channel \<Rightarrow> Inr channel)"

text \<open>
  \<^verbatim>\<open>t.deleter.Do(func() { t.deleteCallback(t) })\<close>: the \<^verbatim>\<open>sync.Once\<close> runs the
  callback the first time only. The callback is a function value handed to
  \<^verbatim>\<open>NewTopic\<close>; its call is recorded as the effect \<open>DeleteCallback\<close>.
\<close>

definition deleter_Do :: "'b Topic \<Rightarrow> 'b Topic \<times> effect list" where
  "deleter_Do t = (if deleter t then (t, []) else (t\<lparr>deleter := True\<rparr>, [DeleteCallback (name t)]))"

definition DeleteExistingChannel :: "string \<Rightarrow> 'b Topic \<Rightarrow> error option \<times> 'b Topic \<times> effect list" where
  "DeleteExistingChannel channelName t =
     (case fmlookup (channelMap t) channelName of
        None \<Rightarrow> (Some ''channel does not exist'', t, [])
      | Some channel \<Rightarrow>
          (let t1 = t\<lparr>channelMap := fmdrop channelName (channelMap t)\<rparr>;
               numChannels = fcard (fmdom (channelMap t1));
               es = ChanDelete channel # updateSignal t1
           in if numChannels = 0 \<and> ephemeral t1 = True
              then (let (t2, cb) = deleter_Do t1 in (None, t2, es @ cb))
              else (None, t1, es)))"

text \<open>
  A series of \<^verbatim>\<open>GetChannel\<close> and \<^verbatim>\<open>DeleteExistingChannel\<close> calls on one topic, with
  the effects of all of them, and the number of callback invocations among effects.
\<close>

datatype topic_op = OpGetChannel nat string | OpDeleteExistingChannel string

fun run_ops :: "topic_op list \<Rightarrow> 'b Topic \<Rightarrow> 'b Topic \<times> effect list" where
  "run_ops [] t = (t, [])"
| "run_ops (OpGetChannel cid c # ops) t =
     (let (ch, t1, es) = GetChannel cid c t;
          (t2, es') = run_ops ops t1
      in (t2, es @ es'))"
| "run_ops (OpDeleteExistingChannel c # ops) t =
     (let (r, t1, es) = DeleteExistingChannel c t;
          (t2, es') = run_ops ops t1
      in (t2, es @ es'))"

fun is_callback :: "effect \<Rightarrow> bool" where
  "is_callback (DeleteCallback s) = True"
| "is_callback e = False"

definition callback_count :: "effect list \<Rightarrow> nat" where
  "callback_count es = length (filter is_callback es)"

section \<open>The fan-out pump of a topic: messagePump\<close>

text \<open>
  Modelled from the spec: \<^verbatim>\<open>decodeMessage\<close> (message.go) reads the frame written on
  spill back into a new message; a buffer shorter than 26 bytes is rejected.
\<close>

definition be_word :: "byte list \<Rightarrow> 'a::len word" where
  "be_word bs = foldl (\<lambda>w b. w * 256 + ucast b) 0 bs"

definition decodeMessage :: "byte list \<Rightarrow> error + Message" where
  "decodeMessage b =
     (if length b < 26 then Inl ''invalid message buffer size''
      else Inr \<lparr>ID = take 16 (drop 10 b), Body = drop 26 b, Timestamp = be_word (take 8 b),
                Attempts = be_word (take 2 (drop 8 b)), deferred = 0, clientID = 0, pri = 0,
                index = 0\<rparr>)"

definition IsPaused :: "'b Topic \<Rightarrow> bool" where
  "IsPaused t = (paused t = 1)"

text \<open>
  The body of the loop over \<^verbatim>\<open>chans\<close> for a channel other than the first: a new
  message with the id and body of \<open>msg\<close>, then its timestamp and deferred value.
\<close>

definition copy_message :: "64 word \<Rightarrow> msg_ref \<Rightarrow> msg_heap \<Rightarrow> msg_ref \<times> msg_heap" where
  "copy_message now msg h =
     (let (chanMsg, h1) = NewMessage now (ID (cells h msg)) (Body (cells h msg)) h;
          h2 = h1\<lparr>cells := (cells h1)(chanMsg := (cells h1 chanMsg)\<lparr>Timestamp := Timestamp (cells h1 msg)\<rparr>)\<rparr>;
          h3 = h2\<lparr>cells := (cells h2)(chanMsg := (cells h2 chanMsg)\<lparr>deferred := deferred (cells h2 msg)\<rparr>)\<rparr>
      in (chanMsg, h3))"

text \<open>
  The loop \<^verbatim>\<open>for i, channel := range chans\<close>, from index \<open>i\<close> on. The clock read by
  the \<open>i\<close>-th \<^verbatim>\<open>NewMessage\<close> is \<open>clock i\<close>. The calls on the channels are the effects;
  an error of \<^verbatim>\<open>channel.PutMessage\<close> is only logged.
\<close>

fun fan_out_loop :: "(nat \<Rightarrow> 64 word) \<Rightarrow> msg_ref \<Rightarrow> nat \<Rightarrow> Channel list \<Rightarrow> msg_heap
     \<Rightarrow> effect list \<times> msg_heap" where
  "fan_out_loop clock msg i [] h = ([], h)"
| "fan_out_loop clock msg i (channel # rest) h =
     (let (chanMsg, h1) = (if i > 0 then copy_message (clock i) msg h else (msg, h));
          e = (if deferred (cells h1 chanMsg) \<noteq> 0
               then ChanPutMessageDeferred channel chanMsg (deferred (cells h1 chanMsg))
               else ChanPutMessage channel chanMsg);
          (es, h2) = fan_out_loop clock msg (Suc i) rest h1
      in (e # es, h2))"

definition fan_out :: "(nat \<Rightarrow> 64 word) \<Rightarrow> msg_ref \<Rightarrow> Channel list \<Rightarrow> msg_heap
     \<Rightarrow> effect list \<times> msg_heap" where
  "fan_out clock msg cs h = fan_out_loop clock msg 0 cs h"

text \<open>
  The pump's local variables: the cached channel list, and whether \<^verbatim>\<open>memoryMsgChan\<close>
  and \<^verbatim>\<open>backendChan\<close> are the topic's queues (\<open>True\<close>) or nil. What the \<^verbatim>\<open>select\<close>
  of the main loop receives is an event; a channel update carries the channels in the
  order in which Go ranges over \<^verbatim>\<open>t.channelMap\<close>, the backend the bytes read.
\<close>

record pump =
  pump_chans :: "Channel list"
  pump_memoryMsgChan :: bool
  pump_backendChan :: bool

datatype pump_event =
    RecvMemory
  | RecvBackend "byte list"
  | RecvChannelUpdate "Channel list"
  | RecvPause
  | RecvExit

text \<open>After the start signal: the first snapshot of the channels.\<close>

definition messagePump_start :: "Channel list \<Rightarrow> 'b Topic \<Rightarrow> pump" where
  "messagePump_start cs t =
     \<lparr>pump_chans = cs,
      pump_memoryMsgChan = (length cs > 0 \<and> \<not> IsPaused t),
      pump_backendChan = (length cs > 0 \<and> \<not> IsPaused t)\<rparr>"

text \<open>
  The message an event hands to the pump, if any: the message a sender handed over
  while the pump was parked or else the head of the memory queue, or the message
  decoded from the backend's bytes, newly allocated. A nil source is never selected,
  and a frame that does not decode is skipped.
\<close>

definition pump_takes :: "pump_event \<Rightarrow> pump \<Rightarrow> 'b Topic \<Rightarrow> msg_heap
     \<Rightarrow> (msg_ref \<times> 'b Topic \<times> msg_heap) option" where
  "pump_takes ev s t h =
     (case ev of
        RecvMemory \<Rightarrow>
          (case handed_over t of
             Some msg \<Rightarrow> if pump_memoryMsgChan s then Some (msg, t\<lparr>handed_over := None\<rparr>, h) else None
           | None \<Rightarrow>
               (case memoryMsgChan t of
                  msg # rest \<Rightarrow>
                    if pump_memoryMsgChan s then Some (msg, t\<lparr>memoryMsgChan := rest\<rparr>, h) else None
                | [] \<Rightarrow> None))
      | RecvBackend buf \<Rightarrow>
          (case decodeMessage buf of
             Inr m \<Rightarrow>
               if pump_backendChan s
               then Some (next_ref h, t, h\<lparr>cells := (cells h)(next_ref h := m), next_ref := Suc (next_ref h)\<rparr>)
               else None
           | Inl err \<Rightarrow> None)
      | _ \<Rightarrow> None)"

text \<open>
  One turn of the main loop: whatever the \<^verbatim>\<open>select\<close> receives, the pump is no longer
  parked. The result is the pump's state, or \<open>None\<close> once it has left the loop.
  \<open>messagePump_park\<close> is the pump blocking in the \<^verbatim>\<open>select\<close> again: it is parked on
  \<^verbatim>\<open>memoryMsgChan\<close> when that source is not nil and holds nothing for it.
\<close>

definition messagePump_park :: "pump \<Rightarrow> 'b Topic \<Rightarrow> 'b Topic" where
  "messagePump_park s t =
     t\<lparr>receiver_parked := (pump_memoryMsgChan s \<and> memoryMsgChan t = [] \<and> handed_over t = None)\<rparr>"


definition messagePump_step :: "(nat \<Rightarrow> 64 word) \<Rightarrow> pump_event \<Rightarrow> pump \<Rightarrow> 'b Topic \<Rightarrow> msg_heap
     \<Rightarrow> pump option \<times> 'b Topic \<times> msg_heap \<times> effect list" where
  "messagePump_step clock ev s t h =
     (case pump_takes ev s t h of
        Some (msg, t', h0) \<Rightarrow>
          (let (es, h') = fan_out clock msg (pump_chans s) h0
           in (Some s, t'\<lparr>receiver_parked := False\<rparr>, h', es))
      | None \<Rightarrow>
          (case ev of
             RecvChannelUpdate cs \<Rightarrow>
               (let on = \<not> (length cs = 0 \<or> IsPaused t)
                in (Some (s\<lparr>pump_chans := cs, pump_memoryMsgChan := on, pump_backendChan := on\<rparr>),
                    t\<lparr>receiver_parked := False\<rparr>, h, []))
           | RecvPause \<Rightarrow>
               (let on = \<not> (length (pump_chans s) = 0 \<or> IsPaused t)
                in (Some (s\<lparr>pump_memoryMsgChan := on, pump_backendChan := on\<rparr>),
                    t\<lparr>receiver_parked := False\<rparr>, h, []))
           | RecvExit \<Rightarrow> (None, t\<lparr>receiver_parked := False\<rparr>, h, [])
           | _ \<Rightarrow> (Some s, t\<lparr>receiver_parked := False\<rparr>, h, [])))"

text \<open>The reference handed to the \<open>i\<close>-th channel, and the call made on it.\<close>

definition chan_ref :: "msg_heap \<Rightarrow> msg_ref \<Rightarrow> nat \<Rightarrow> msg_ref" where
  "chan_ref h0 msg i = (if i = 0 then msg else next_ref h0 + (i - 1))"

definition chan_call :: "Channel \<Rightarrow> msg_ref \<Rightarrow> 64 word \<Rightarrow> effect" where
  "chan_call channel r d =
     (if d \<noteq> 0 then ChanPutMessageDeferred channel r d else ChanPutMessage channel r)"

section \<open>Message ids: GenerateID\<close>

text \<open>
  The GUID factory (guid.go is not among the sources) is a parameter: \<open>NewGUID\<close> maps the
  state of the factory and of its clock to an error or a GUID and the next state, and
  \<open>Hex\<close> renders a GUID as a message id. \<^verbatim>\<open>GenerateID\<close> retries until \<open>NewGUID\<close>
  succeeds; a loop that never leaves is the value \<open>None\<close>. Beside the id it returns
  the number of one-millisecond sleeps it took and the state of the factory.
\<close>

type_synonym guid = "64 word"

partial_function (option) GenerateID ::
  "('g \<Rightarrow> (error + guid) \<times> 'g) \<Rightarrow> (guid \<Rightarrow> MessageID) \<Rightarrow> 'g \<Rightarrow> (MessageID \<times> nat \<times> 'g) option" where
  "GenerateID NewGUID Hex f =
     (case NewGUID f of
        (Inl err, f') \<Rightarrow>
          Option.bind (GenerateID NewGUID Hex f') (\<lambda>(mid, slept, f''). Some (mid, Suc slept, f''))
      | (Inr g, f') \<Rightarrow> Some (Hex g, 0, f'))"

text \<open>The state of the factory after \<open>k\<close> calls of \<open>NewGUID\<close> that all failed.\<close>

fun after_failures :: "('g \<Rightarrow> (error + guid) \<times> 'g) \<Rightarrow> nat \<Rightarrow> 'g \<Rightarrow> 'g option" where
  "after_failures NewGUID 0 f = Some f"
| "after_failures NewGUID (Suc k) f =
     (case NewGUID f of
        (Inl err, f') \<Rightarrow> after_failures NewGUID k f'
      | (Inr g, f') \<Rightarrow> None)"

section \<open>The broker: NSQD\<close>

text \<open>
  Modelled from the spec: the options the core recognises (options.go is not among the
  sources). \<open>QueueScanDirtyPercent\<close> is a \<^verbatim>\<open>float64\<close>, taken as the real number it
  denotes.
\<close>

record Options =
  MemQueueSize :: int
  QueueScanSelectionCount :: int
  QueueScanWorkerPoolMax :: int
  QueueScanDirtyPercent :: real

text \<open>
  The broker. Topics are objects of a store, \<open>topics\<close>, addressed by references that
  \<open>next_topic\<close> allocates, as \<open>next_chan\<close> allocates the identities of channels.
  \<open>workers\<close> is the number of \<^verbatim>\<open>queueScanWorker\<close> goroutines that have been started
  and have not returned.
\<close>

type_synonym topic_ref = nat

record 'b NSQD =
  opts :: Options
  isLoading :: "32 word"
  topicMap :: "(string, topic_ref) fmap"
  poolSize :: int
  topics :: "topic_ref \<Rightarrow> 'b Topic"
  next_topic :: topic_ref
  next_chan :: nat
  workers :: nat

section \<open>The pool of queue-scan workers: resizePool, queueScanWorker\<close>

text \<open>
  \<^verbatim>\<open>int(float64(num) * 0.25)\<close> for the length \<open>num\<close> of a slice: the conversion to
  \<^verbatim>\<open>float64\<close> is exact below \<open>2^53\<close>, the product with 0.25 is exact, and the
  conversion back truncates, so the value is \<open>num div 4\<close>. The two tests that follow
  are those of the source, in its order.
\<close>

definition idealPoolSize :: "Options \<Rightarrow> nat \<Rightarrow> int" where
  "idealPoolSize os num =
     (let ideal = int (num div 4)
      in if ideal < 1 then 1
         else if ideal > QueueScanWorkerPoolMax os then QueueScanWorkerPoolMax os
         else ideal)"

text \<open>
  The loop of \<^verbatim>\<open>resizePool\<close>. \<^verbatim>\<open>closeCh\<close> is unbuffered: a send on it completes when
  one live worker receives it, and that worker returns; with no live worker the send
  blocks for ever, which is the result \<open>None\<close>. Starting a worker adds a live worker.
\<close>

function resizePool_loop :: "int \<Rightarrow> 'b NSQD \<Rightarrow> 'b NSQD option" where
  "resizePool_loop ideal n =
     (if ideal = poolSize n then Some n
      else if ideal < poolSize n then
        (if workers n = 0 then None
         else resizePool_loop ideal (n\<lparr>workers := workers n - 1, poolSize := poolSize n - 1\<rparr>))
      else resizePool_loop ideal (n\<lparr>workers := Suc (workers n), poolSize := poolSize n + 1\<rparr>))"
  by pat_completeness auto
termination
  by (relation "measure (\<lambda>(ideal, n). nat \<bar>poolSize n - ideal\<bar>)") auto

definition resizePool :: "'b NSQD \<Rightarrow> nat \<Rightarrow> 'b NSQD option" where
  "resizePool n num = resizePool_loop (idealPoolSize (opts n) num) n"

text \<open>
  \<^verbatim>\<open>queueScanWorker\<close> over what its \<^verbatim>\<open>select\<close> receives: a channel to scan, with the
  clock reading taken for it, or the signal on \<^verbatim>\<open>closeCh\<close>. The two scans of
  channel.go are the parameters \<open>processInFlightQueue\<close> and \<open>processDeferredQueue\<close>.
  The result is the responses sent on \<^verbatim>\<open>responseCh\<close> and, when the worker has
  returned, the events it left unreceived; \<open>None\<close> when it is still waiting.
\<close>

datatype worker_event = WorkRecv Channel "64 word" | CloseRecv

fun queueScanWorker :: "(Channel \<Rightarrow> 64 word \<Rightarrow> bool) \<Rightarrow> (Channel \<Rightarrow> 64 word \<Rightarrow> bool)
     \<Rightarrow> worker_event list \<Rightarrow> bool list \<times> worker_event list option" where
  "queueScanWorker processInFlightQueue processDeferredQueue [] = ([], None)"
| "queueScanWorker processInFlightQueue processDeferredQueue (CloseRecv # rest) = ([], Some rest)"
| "queueScanWorker processInFlightQueue processDeferredQueue (WorkRecv c now # rest) =
     (let dirty = False;
          dirty = (if processInFlightQueue c now then True else dirty);
          dirty = (if processDeferredQueue c now then True else dirty);
          (rs, r) = queueScanWorker processInFlightQueue processDeferredQueue rest
      in (dirty # rs, r))"

text \<open>
  The pool size in the words of the specification: the value raised to at least \<open>lo\<close>
  and capped at \<open>hi\<close>.
\<close>

definition spec_clamp :: "int \<Rightarrow> int \<Rightarrow> int \<Rightarrow> int" where
  "spec_clamp lo x hi = min hi (max lo x)"

section \<open>The queue-scan loop: queueScanLoop\<close>

text \<open>
  The loop as a transition system. Its control is at the \<^verbatim>\<open>select\<close> statement, at
  the label \<^verbatim>\<open>loop\<close> (about to send a sample of channels to the workers) or at the
  label \<^verbatim>\<open>exit\<close>. At the \<^verbatim>\<open>select\<close> it receives a tick of the work ticker, a tick
  of the refresh ticker (with the result of \<^verbatim>\<open>n.channels()\<close>), or the exit signal.
\<close>

datatype scan_event = WorkTick | RefreshTick "Channel list" | ExitSignal

datatype scan_pc = AtSelect | AtLoop | AtExit

record 'b scan =
  scan_pc :: scan_pc
  channels :: "Channel list"
  scan_num :: int
  nsqd :: "'b NSQD"

definition queueScanLoop_init :: "'b NSQD \<Rightarrow> Channel list \<Rightarrow> 'b scan option" where
  "queueScanLoop_init n chs =
     (case resizePool n (length chs) of
        None \<Rightarrow> None
      | Some n' \<Rightarrow> Some \<lparr>scan_pc = AtSelect, channels = chs, scan_num = 0, nsqd = n'\<rparr>)"

text \<open>
  One \<^verbatim>\<open>select\<close>. A work tick with no channels and a refresh tick \<^verbatim>\<open>continue\<close>;
  a work tick with channels computes \<open>num\<close> and falls through to the label \<^verbatim>\<open>loop\<close>.
  \<open>None\<close>: \<^verbatim>\<open>resizePool\<close> does not return.
\<close>

definition queueScanLoop_select :: "scan_event \<Rightarrow> 'b scan \<Rightarrow> 'b scan option" where
  "queueScanLoop_select ev s =
     (case ev of
        WorkTick \<Rightarrow>
          if length (channels s) = 0 then Some s
          else
            (let num0 = QueueScanSelectionCount (opts (nsqd s));
                 num1 = (if num0 > int (length (channels s)) then int (length (channels s)) else num0)
             in Some (s\<lparr>scan_num := num1, scan_pc := AtLoop\<rparr>))
      | RefreshTick chs \<Rightarrow>
          (case resizePool (nsqd s) (length chs) of
             None \<Rightarrow> None
           | Some n' \<Rightarrow> Some (s\<lparr>channels := chs, nsqd := n'\<rparr>))
      | ExitSignal \<Rightarrow> Some (s\<lparr>scan_pc := AtExit\<rparr>))"

text \<open>
  Reading \<open>k\<close> responses from \<^verbatim>\<open>responseCh\<close> and counting the dirty ones; \<open>None\<close>
  when fewer than \<open>k\<close> ever arrive.
\<close>

fun count_dirty :: "nat \<Rightarrow> bool list \<Rightarrow> nat option" where
  "count_dirty 0 rs = Some 0"
| "count_dirty (Suc k) [] = None"
| "count_dirty (Suc k) (r # rs) =
     (case count_dirty k rs of
        None \<Rightarrow> None
      | Some numDirty \<Rightarrow> Some (if r then Suc numDirty else numDirty))"

text \<open>
  One sampling pass from the label \<^verbatim>\<open>loop\<close>. \<open>idxs\<close> is what \<^verbatim>\<open>util.UniqRands\<close>
  returns and \<open>rs\<close> what the workers send back. The \<^verbatim>\<open>float64\<close> quotient is the
  exact quotient rounded by \<open>rnd\<close>; with \<open>num = 0\<close> it is a NaN, which compares false.
  On \<^verbatim>\<open>goto loop\<close> the control stays at the label; otherwise the body ends and the
  control is back at the \<^verbatim>\<open>select\<close>. \<open>None\<close>: an index is out of range or the
  responses never all arrive. The channels sent to \<^verbatim>\<open>workCh\<close> are returned.
\<close>

definition queueScanLoop_pass :: "(real \<Rightarrow> real) \<Rightarrow> nat list \<Rightarrow> bool list \<Rightarrow> 'b scan
     \<Rightarrow> (Channel list \<times> 'b scan) option" where
  "queueScanLoop_pass rnd idxs rs s =
     (if \<not> list_all (\<lambda>i. i < length (channels s)) idxs then None
      else
        (case count_dirty (nat (scan_num s)) rs of
           None \<Rightarrow> None
         | Some numDirty \<Rightarrow>
             if scan_num s \<noteq> 0
                \<and> rnd (real numDirty / real_of_int (scan_num s)) > QueueScanDirtyPercent (opts (nsqd s))
             then Some (map (\<lambda>i. channels s ! i) idxs, s)
             else Some (map (\<lambda>i. channels s ! i) idxs, s\<lparr>scan_pc := AtSelect\<rparr>)))"

text \<open>
  What is used of the rounding of a \<^verbatim>\<open>float64\<close> division of two counts: the
  quotient 0 is exact, a quotient of at most 1 is not rounded above 1, and a positive
  quotient is not rounded to 0.
\<close>

definition float64_quotient :: "(real \<Rightarrow> real) \<Rightarrow> bool" where
  "float64_quotient rnd =
     (rnd 0 = 0 \<and>
      (\<forall>a b :: nat. 0 < b \<longrightarrow> b < 2 ^ 63 \<longrightarrow>
        (a \<le> b \<longrightarrow> rnd (real a / real b) \<le> 1) \<and> (0 < a \<longrightarrow> 0 < rnd (real a / real b))))"

section \<open>The topic registry: NewTopic, GetTopic\<close>

definition HasSuffix :: "string \<Rightarrow> string \<Rightarrow> bool" where
  "HasSuffix s suffix_str =
     (length suffix_str \<le> length s \<and> drop (length s - length suffix_str) s = suffix_str)"

text \<open>
  \<^verbatim>\<open>NewTopic\<close>. The backend is the dummy queue for an ephemeral topic and a disk queue
  otherwise: \<open>newBackend\<close> gives its initial state from the name and the ephemeral
  flag. Starting the pump and \<^verbatim>\<open>Notify\<close> leave no state in the topic.
\<close>

definition NewTopic :: "(string \<Rightarrow> bool \<Rightarrow> 'b) \<Rightarrow> Options \<Rightarrow> string \<Rightarrow> 'b Topic" where
  "NewTopic newBackend os topicName =
     \<lparr>messageCount = 0, messageBytes = 0, name = topicName, channelMap = fmempty,
      backend = newBackend topicName (HasSuffix topicName ''#ephemeral''),
      memoryMsgChan = [], memCap = nat (MemQueueSize os), exitChan_closed = False,
      exitFlag = 0, ephemeral = HasSuffix topicName ''#ephemeral'', deleter = False,
      paused = 0, started = False, receiver_parked = False, handed_over = None\<rparr>"

text \<open>\<^verbatim>\<open>Start\<close>: the non-blocking send on \<^verbatim>\<open>startChan\<close>.\<close>

definition Start :: "'b Topic \<Rightarrow> 'b Topic" where
  "Start t = t\<lparr>started := True\<rparr>"

text \<open>
  \<^verbatim>\<open>GetTopic\<close> in its three critical sections: the lookup under the read lock; under
  the write lock, the second lookup and, if it fails, the creation and registration of
  the topic; and, after the unlock, for a topic this call created, the channels that
  the lookup service names and the start of the pump. \<open>lookupd\<close> gives the channel
  names the query yields for a topic (none without lookup addresses or on an error).
\<close>

definition GetTopic_read :: "'b NSQD \<Rightarrow> string \<Rightarrow> topic_ref option" where
  "GetTopic_read n topicName = fmlookup (topicMap n) topicName"

definition GetTopic_create :: "(string \<Rightarrow> bool \<Rightarrow> 'b) \<Rightarrow> 'b NSQD \<Rightarrow> string
     \<Rightarrow> (topic_ref \<times> bool) \<times> 'b NSQD" where
  "GetTopic_create newBackend n topicName =
     (case fmlookup (topicMap n) topicName of
        Some t \<Rightarrow> ((t, False), n)
      | None \<Rightarrow>
          (let t = next_topic n
           in ((t, True),
               n\<lparr>topics := (topics n)(t := NewTopic newBackend (opts n) topicName),
                 next_topic := Suc t,
                 topicMap := fmupd topicName t (topicMap n)\<rparr>)))"

fun precreate :: "string list \<Rightarrow> topic_ref \<Rightarrow> 'b NSQD \<Rightarrow> 'b NSQD" where
  "precreate [] t n = n"
| "precreate (channelName # rest) t n =
     (if HasSuffix channelName ''#ephemeral'' then precreate rest t n
      else
        (let (channel, tp, es) = GetChannel (next_chan n) channelName (topics n t)
         in precreate rest t (n\<lparr>topics := (topics n)(t := tp), next_chan := Suc (next_chan n)\<rparr>)))"

definition GetTopic_finish :: "(string \<Rightarrow> string list) \<Rightarrow> topic_ref \<Rightarrow> 'b NSQD \<Rightarrow> 'b NSQD" where
  "GetTopic_finish lookupd t n =
     (if isLoading n = 1 then n
      else
        (let n1 = precreate (lookupd (name (topics n t))) t n
         in n1\<lparr>topics := (topics n1)(t := Start (topics n1 t))\<rparr>))"

definition GetTopic :: "(string \<Rightarrow> bool \<Rightarrow> 'b) \<Rightarrow> (string \<Rightarrow> string list) \<Rightarrow> 'b NSQD \<Rightarrow> string
     \<Rightarrow> topic_ref \<times> 'b NSQD" where
  "GetTopic newBackend lookupd n topicName =
     (case GetTopic_read n topicName of
        Some t \<Rightarrow> (t, n)
      | None \<Rightarrow>
          (let ((t, created), n1) = GetTopic_create newBackend n topicName
           in if created then (t, GetTopic_finish lookupd t n1) else (t, n1)))"

text \<open>
  Concurrent calls. A call is at the read lock, at the write lock, past the unlock with
  the topic it created, or has returned. A schedule names, step by step, the call that
  runs its next critical section; \<open>names\<close> gives the topic name each call asks for.
\<close>

datatype gt_pc = AtRLock | AtLock | AtFinish topic_ref | Returned topic_ref

definition GetTopic_step :: "(string \<Rightarrow> bool \<Rightarrow> 'b) \<Rightarrow> (string \<Rightarrow> string list) \<Rightarrow> string
     \<Rightarrow> gt_pc \<Rightarrow> 'b NSQD \<Rightarrow> gt_pc \<times> 'b NSQD" where
  "GetTopic_step newBackend lookupd topicName p n =
     (case p of
        AtRLock \<Rightarrow>
          (case GetTopic_read n topicName of
             Some t \<Rightarrow> (Returned t, n)
           | None \<Rightarrow> (AtLock, n))
      | AtLock \<Rightarrow>
          (let ((t, created), n1) = GetTopic_create newBackend n topicName
           in (if created then AtFinish t else Returned t, n1))
      | AtFinish t \<Rightarrow> (Returned t, GetTopic_finish lookupd t n)
      | Returned t \<Rightarrow> (Returned t, n))"

fun run_schedule :: "(string \<Rightarrow> bool \<Rightarrow> 'b) \<Rightarrow> (string \<Rightarrow> string list) \<Rightarrow> string list
     \<Rightarrow> nat list \<Rightarrow> gt_pc list \<times> 'b NSQD \<Rightarrow> gt_pc list \<times> 'b NSQD" where
  "run_schedule newBackend lookupd names [] (pcs, n) = (pcs, n)"
| "run_schedule newBackend lookupd names (i # sched) (pcs, n) =
     (if i < length pcs
      then
        (let (p, n') = GetTopic_step newBackend lookupd (names ! i) (pcs ! i) n
         in run_schedule newBackend lookupd names sched (pcs[i := p], n'))
      else run_schedule newBackend lookupd names sched (pcs, n))"

text \<open>
  The invariant of concurrent calls: a call past the write lock holds the topic that is
  registered under its name.
\<close>

definition registered :: "string list \<Rightarrow> gt_pc list \<times> 'b NSQD \<Rightarrow> bool" where
  "registered names st =
     (length (fst st) = length names
      \<and> (\<forall>i < length names. \<forall>t. fst st ! i = AtFinish t \<or> fst st ! i = Returned t
            \<longrightarrow> fmlookup (topicMap (snd st)) (names ! i) = Some t))"

section \<open>Example objects\<close>

text \<open>
  A backend that holds at most \<open>k\<close> frames and refuses a further \<^verbatim>\<open>Put\<close>, together
  with a heap, a context and a topic, on which the theorems are instantiated.
\<close>

definition bounded_queue :: "nat \<Rightarrow> (byte list list) BackendQueue" where
  "bounded_queue k =
     \<lparr>bq_Put = (\<lambda>f q. if length q < k then (None, q @ [f]) else (Some ''disk full'', q)),
      bq_Close = (\<lambda>q. (None, q)),
      bq_Delete = (\<lambda>q. (None, [])),
      bq_Empty = (\<lambda>q. (None, [])),
      bq_Depth = (\<lambda>q. int (length q))\<rparr>"

definition ex_msg :: "nat \<Rightarrow> Message" where
  "ex_msg k = \<lparr>ID = replicate 16 0, Body = replicate k 7, Timestamp = 5, Attempts = 0,
              deferred = 0, clientID = 0, pri = 0, index = 0\<rparr>"

definition ex_heap :: msg_heap where
  "ex_heap = \<lparr>cells = ex_msg, next_ref = 10\<rparr>"

definition ex_ctx :: ctx where
  "ex_ctx = \<lparr>errValue = None, bp = []\<rparr>"

definition ex_topic :: "nat \<Rightarrow> (byte list list) Topic" where
  "ex_topic k =
     \<lparr>messageCount = 0, messageBytes = 0, name = ''foo#ephemeral'', channelMap = fmempty,
      backend = [], memoryMsgChan = [], memCap = k, exitChan_closed = False, exitFlag = 0,
      ephemeral = True, deleter = False, paused = 0, started = False,
      receiver_parked = False, handed_over = None\<rparr>"

definition ex_chan :: "nat \<Rightarrow> Channel" where
  "ex_chan k = \<lparr>chan_name = ''c#ephemeral'', chan_id = k\<rparr>"

definition ex_pump :: pump where
  "ex_pump = \<lparr>pump_chans = [ex_chan 0, ex_chan 1, ex_chan 2],
              pump_memoryMsgChan = True, pump_backendChan = True\<rparr>"

definition ex_heap_deferred :: msg_heap where
  "ex_heap_deferred = ex_heap\<lparr>cells := (cells ex_heap)(4 := (ex_msg 4)\<lparr>deferred := 500\<rparr>)\<rparr>"

text \<open>
  A factory that fails until its clock reads 2, one that always fails, and a rendering
  of a GUID.
\<close>

definition ex_NewGUID :: "nat \<Rightarrow> (error + guid) \<times> nat" where
  "ex_NewGUID k = (if k < 2 then (Inl ''time has gone backwards'', Suc k) else (Inr (of_nat k), Suc k))"

definition ex_failing :: "nat \<Rightarrow> (error + guid) \<times> nat" where
  "ex_failing k = (Inl ''sequence expired'', Suc k)"

definition ex_Hex :: "guid \<Rightarrow> MessageID" where
  "ex_Hex g = be_bytes 8 g"

definition ex_opts :: "int \<Rightarrow> real \<Rightarrow> Options" where
  "ex_opts poolMax dirtyPercent =
     \<lparr>MemQueueSize = 1, QueueScanSelectionCount = 20, QueueScanWorkerPoolMax = poolMax,
      QueueScanDirtyPercent = dirtyPercent\<rparr>"

definition ex_nsqd :: "int \<Rightarrow> real \<Rightarrow> (byte list list) NSQD" where
  "ex_nsqd poolMax dirtyPercent =
     \<lparr>opts = ex_opts poolMax dirtyPercent, isLoading = 0, topicMap = fmempty, poolSize = 0,
      topics = (\<lambda>r. ex_topic 1), next_topic = 0, next_chan = 0, workers = 0\<rparr>"

definition ex_scan :: "real \<Rightarrow> (byte list list) scan" where
  "ex_scan dirtyPercent =
     \<lparr>scan_pc = AtLoop, channels = [ex_chan 0, ex_chan 1, ex_chan 2, ex_chan 3], scan_num = 4,
      nsqd = ex_nsqd 4 dirtyPercent\<rparr>"

definition ex_newBackend :: "string \<Rightarrow> bool \<Rightarrow> byte list list" where
  "ex_newBackend topicName eph = []"

definition ex_lookupd :: "string \<Rightarrow> string list" where
  "ex_lookupd topicName = [''ch'', ''tmp#ephemeral'']"

section \<open>Theorems: publishing\<close>

lemma be_bytes_examples:
  "be_bytes 8 (5 :: 64 word) = [0, 0, 0, 0, 0, 0, 0, 5]" "be_bytes 2 (0 :: 16 word) = [0, 0]"
  by code_simp+

lemma ex_frame:
  "WriteTo (ex_msg k) [] = [0, 0, 0, 0, 0, 0, 0, 5, 0, 0] @ replicate 16 0 @ replicate k 7"
  by (simp add: WriteTo_def ex_msg_def be_bytes_examples)

lemma put_counters:
  "put bq h c t m = (r, c', t') \<Longrightarrow>
     messageCount t' = messageCount t \<and> messageBytes t' = messageBytes t \<and> exitFlag t' = exitFlag t"
  by (auto simp: put_def Let_def split: if_splits prod.splits)

lemma put_all_counters:
  "put_all bq h c t ms = Some (c', t') \<Longrightarrow>
     messageCount t' = messageCount t \<and> messageBytes t' = messageBytes t"
proof (induction ms arbitrary: c t)
  case Nil
  then show ?case by simp
next
  case (Cons m ms)
  then show ?case
    by (auto split: prod.splits option.splits dest!: put_counters)
qed

lemma PutMessages_loop_fail:
  "i < length msgs \<Longrightarrow> put_all bq h c t (take i msgs) = Some (ci, ti) \<Longrightarrow>
   put bq h ci ti (msgs ! i) = (Some e, ce, te) \<Longrightarrow>
   PutMessages_loop bq h k tb c t msgs =
     (Some e, ce, te\<lparr>messageCount := messageCount te + of_nat (k + i),
                      messageBytes := messageBytes te + of_nat (tb + body_bytes h (take i msgs))\<rparr>)"
proof (induction msgs arbitrary: i k tb c t)
  case Nil
  then show ?case by simp
next
  case (Cons m ms)
  show ?case
  proof (cases i)
    case 0
    with Cons.prems show ?thesis by (simp add: body_bytes_def)
  next
    case (Suc j)
    with Cons.prems obtain c1 t1 where p: "put bq h c t m = (None, c1, t1)"
      and rest: "put_all bq h c1 t1 (take j ms) = Some (ci, ti)"
      by (auto split: prod.splits option.splits)
    from Cons.prems Suc have j: "j < length ms" and f: "put bq h ci ti (ms ! j) = (Some e, ce, te)"
      by simp_all
    from Cons.IH [OF j rest f, of "Suc k" "tb + length (Body (cells h m))"] p Suc
    show ?thesis by (simp add: body_bytes_def add.assoc)
  qed
qed

lemma PutMessages_loop_ok:
  "put_all bq h c t msgs = Some (cn, tn) \<Longrightarrow>
   PutMessages_loop bq h k tb c t msgs =
     (None, cn, tn\<lparr>messageBytes := messageBytes tn + of_nat (tb + body_bytes h msgs),
                   messageCount := messageCount tn + of_nat (k + length msgs)\<rparr>)"
proof (induction msgs arbitrary: k tb c t)
  case Nil
  then show ?case by (simp add: body_bytes_def)
next
  case (Cons m ms)
  from Cons.prems obtain c1 t1 where p: "put bq h c t m = (None, c1, t1)"
      and rest: "put_all bq h c1 t1 ms = Some (cn, tn)"
      by (auto split: prod.splits option.splits)
  from Cons.IH [OF rest, of "Suc k" "tb + length (Body (cells h m))"] p
  show ?case by (simp add: body_bytes_def add.assoc)
qed

text \<open>
  C2. On a topic that is not exiting: if the puts of \<open>msgs[0..i-1]\<close> succeed and the put
  of \<open>msgs[i]\<close> fails with \<open>e\<close>, \<^verbatim>\<open>PutMessages\<close> returns \<open>e\<close> with \<open>messageCount\<close>
  increased by exactly \<open>i\<close> and \<open>messageBytes\<close> by the total body length of
  \<open>msgs[0..i-1]\<close>; if every put succeeds it returns nil with \<open>messageCount\<close> increased
  by \<open>len(msgs)\<close> and \<open>messageBytes\<close> by the total body length of the batch.
\<close>

theorem PutMessages_counters:
  assumes "exitFlag t \<noteq> 1"
  shows "(i < length msgs \<longrightarrow> put_all bq h c t (take i msgs) = Some (ci, ti) \<longrightarrow>
           put bq h ci ti (msgs ! i) = (Some e, ce, te) \<longrightarrow>
           PutMessages bq h c t msgs =
             (Some e, ce,
              te\<lparr>messageCount := messageCount t + of_nat i,
                 messageBytes := messageBytes t + of_nat (body_bytes h (take i msgs))\<rparr>))
       \<and> (put_all bq h c t msgs = Some (cn, tn) \<longrightarrow>
           PutMessages bq h c t msgs =
             (None, cn,
              tn\<lparr>messageBytes := messageBytes t + of_nat (body_bytes h msgs),
                 messageCount := messageCount t + of_nat (length msgs)\<rparr>))"
proof (intro conjI impI)
  assume i: "i < length msgs" and a: "put_all bq h c t (take i msgs) = Some (ci, ti)"
    and f: "put bq h ci ti (msgs ! i) = (Some e, ce, te)"
  from put_all_counters [OF a] put_counters [OF f]
  have "messageCount te = messageCount t" "messageBytes te = messageBytes t" by simp_all
  with PutMessages_loop_fail [OF i a f, of 0 0] assms
  show "PutMessages bq h c t msgs =
             (Some e, ce,
              te\<lparr>messageCount := messageCount t + of_nat i,
                 messageBytes := messageBytes t + of_nat (body_bytes h (take i msgs))\<rparr>)"
    by (simp add: PutMessages_def)
next
  assume a: "put_all bq h c t msgs = Some (cn, tn)"
  from put_all_counters [OF a] PutMessages_loop_ok [OF a, of 0 0] assms
  show "PutMessages bq h c t msgs =
             (None, cn,
              tn\<lparr>messageBytes := messageBytes t + of_nat (body_bytes h msgs),
                 messageCount := messageCount t + of_nat (length msgs)\<rparr>)"
    by (simp add: PutMessages_def)
qed

theorem PutMessages_counters_witness:
  "PutMessages (bounded_queue 1) ex_heap ex_ctx (ex_topic 1) [1, 2, 3] =
     (Some ''disk full'',
      \<lparr>errValue = Some ''disk full'', bp = [WriteTo (ex_msg 3) []]\<rparr>,
      (ex_topic 1)\<lparr>memoryMsgChan := [1], backend := [WriteTo (ex_msg 2) []],
                   messageCount := 2, messageBytes := 3\<rparr>)
   \<and> PutMessages (bounded_queue 1) ex_heap ex_ctx (ex_topic 1) [1, 2] =
     (None,
      \<lparr>errValue = None, bp = [WriteTo (ex_msg 2) []]\<rparr>,
      (ex_topic 1)\<lparr>memoryMsgChan := [1], backend := [WriteTo (ex_msg 2) []],
                   messageCount := 2, messageBytes := 3\<rparr>)"
proof -
  have nx: "exitFlag (ex_topic 1) \<noteq> 1" by (simp add: ex_topic_def)
  have p1: "put (bounded_queue 1) ex_heap ex_ctx (ex_topic 1) 1 =
              (None, ex_ctx, (ex_topic 1)\<lparr>memoryMsgChan := [1]\<rparr>)"
    by (simp add: put_def ex_topic_def)
  have p2: "put (bounded_queue 1) ex_heap ex_ctx ((ex_topic 1)\<lparr>memoryMsgChan := [1]\<rparr>) 2 =
              (None, \<lparr>errValue = None, bp = [WriteTo (ex_msg 2) []]\<rparr>,
               (ex_topic 1)\<lparr>memoryMsgChan := [1], backend := [WriteTo (ex_msg 2) []]\<rparr>)"
    by (simp add: put_def ex_topic_def bounded_queue_def writeMessageToBackend_def
        bufferPoolGet_def bufferPoolPut_def SetHealth_def ex_ctx_def ex_heap_def Let_def)
  have p3: "put (bounded_queue 1) ex_heap \<lparr>errValue = None, bp = [WriteTo (ex_msg 2) []]\<rparr>
               ((ex_topic 1)\<lparr>memoryMsgChan := [1], backend := [WriteTo (ex_msg 2) []]\<rparr>) 3 =
              (Some ''disk full'', \<lparr>errValue = Some ''disk full'', bp = [WriteTo (ex_msg 3) []]\<rparr>,
               (ex_topic 1)\<lparr>memoryMsgChan := [1], backend := [WriteTo (ex_msg 2) []]\<rparr>)"
    by (simp add: put_def ex_topic_def bounded_queue_def writeMessageToBackend_def
        bufferPoolGet_def bufferPoolPut_def SetHealth_def ex_heap_def Let_def)
  have a2: "put_all (bounded_queue 1) ex_heap ex_ctx (ex_topic 1) [1, 2] =
              Some (\<lparr>errValue = None, bp = [WriteTo (ex_msg 2) []]\<rparr>,
                    (ex_topic 1)\<lparr>memoryMsgChan := [1], backend := [WriteTo (ex_msg 2) []]\<rparr>)"
    using p1 p2 by simp
  have bb: "body_bytes ex_heap [1, 2] = 3"
    by (simp add: body_bytes_def ex_heap_def ex_msg_def)
  have z: "messageCount (ex_topic 1) = 0" "messageBytes (ex_topic 1) = 0"
    by (simp_all add: ex_topic_def)
  from PutMessages_counters [OF nx, of 2 "[1, 2, 3]" "bounded_queue 1" ex_heap ex_ctx
      "\<lparr>errValue = None, bp = [WriteTo (ex_msg 2) []]\<rparr>"
      "(ex_topic 1)\<lparr>memoryMsgChan := [1], backend := [WriteTo (ex_msg 2) []]\<rparr>"
      "''disk full''" "\<lparr>errValue = Some ''disk full'', bp = [WriteTo (ex_msg 3) []]\<rparr>"
      "(ex_topic 1)\<lparr>memoryMsgChan := [1], backend := [WriteTo (ex_msg 2) []]\<rparr>"]
    a2 p3 bb z
  have f: "PutMessages (bounded_queue 1) ex_heap ex_ctx (ex_topic 1) [1, 2, 3] =
     (Some ''disk full'',
      \<lparr>errValue = Some ''disk full'', bp = [WriteTo (ex_msg 3) []]\<rparr>,
      (ex_topic 1)\<lparr>memoryMsgChan := [1], backend := [WriteTo (ex_msg 2) []],
                   messageCount := 2, messageBytes := 3\<rparr>)"
    by simp
  from PutMessages_counters [OF nx, of _ "[1, 2]" "bounded_queue 1" ex_heap ex_ctx _ _ _ _ _
      "\<lparr>errValue = None, bp = [WriteTo (ex_msg 2) []]\<rparr>"
      "(ex_topic 1)\<lparr>memoryMsgChan := [1], backend := [WriteTo (ex_msg 2) []]\<rparr>"]
    a2 bb z
  have s: "PutMessages (bounded_queue 1) ex_heap ex_ctx (ex_topic 1) [1, 2] =
     (None,
      \<lparr>errValue = None, bp = [WriteTo (ex_msg 2) []]\<rparr>,
      (ex_topic 1)\<lparr>memoryMsgChan := [1], backend := [WriteTo (ex_msg 2) []],
                   messageCount := 2, messageBytes := 3\<rparr>)"
    by simp
  from f s show ?thesis by simp
qed

text \<open>
  C3. On a topic whose exit flag is set, \<^verbatim>\<open>PutMessage\<close> returns the error "exiting"
  and leaves the topic and the context as they were: neither counter moves and no message
  enters the memory queue or the backend. Every successful \<^verbatim>\<open>PutMessage\<close> on a topic
  that is not exiting increases \<open>messageCount\<close> by exactly 1 and \<open>messageBytes\<close> by
  exactly the length of the body.
\<close>

theorem PutMessage_exiting_and_counters:
  "(exitFlag t = 1 \<longrightarrow> PutMessage bq h c t m = (Some ''exiting'', c, t))
   \<and> (exitFlag t \<noteq> 1 \<longrightarrow> PutMessage bq h c t m = (None, c', t') \<longrightarrow>
        messageCount t' = messageCount t + 1
        \<and> messageBytes t' = messageBytes t + of_nat (length (Body (cells h m))))"
  by (auto simp: PutMessage_def split: prod.splits option.splits dest!: put_counters)

theorem PutMessage_exiting_and_counters_witness:
  "PutMessage (bounded_queue 1) ex_heap ex_ctx ((ex_topic 1)\<lparr>exitFlag := 1\<rparr>) 3 =
     (Some ''exiting'', ex_ctx, (ex_topic 1)\<lparr>exitFlag := 1\<rparr>)
   \<and> PutMessage (bounded_queue 1) ex_heap ex_ctx (ex_topic 1) 3 =
       (None, ex_ctx, (ex_topic 1)\<lparr>memoryMsgChan := [3], messageCount := 1, messageBytes := 3\<rparr>)
   \<and> messageCount ((ex_topic 1)\<lparr>memoryMsgChan := [3], messageCount := 1, messageBytes := 3\<rparr>)
       = messageCount (ex_topic 1) + 1
   \<and> messageBytes ((ex_topic 1)\<lparr>memoryMsgChan := [3], messageCount := 1, messageBytes := 3\<rparr>)
       = messageBytes (ex_topic 1) + of_nat (length (Body (cells ex_heap 3)))"
proof -
  have e: "PutMessage (bounded_queue 1) ex_heap ex_ctx (ex_topic 1) 3 =
       (None, ex_ctx, (ex_topic 1)\<lparr>memoryMsgChan := [3], messageCount := 1, messageBytes := 3\<rparr>)"
    by (simp add: PutMessage_def put_def ex_topic_def ex_heap_def ex_msg_def)
  from PutMessage_exiting_and_counters [of "(ex_topic 1)\<lparr>exitFlag := 1\<rparr>" "bounded_queue 1" ex_heap ex_ctx 3]
  have a: "PutMessage (bounded_queue 1) ex_heap ex_ctx ((ex_topic 1)\<lparr>exitFlag := 1\<rparr>) 3 =
     (Some ''exiting'', ex_ctx, (ex_topic 1)\<lparr>exitFlag := 1\<rparr>)"
    by simp
  have nx: "exitFlag (ex_topic 1) \<noteq> 1" by (simp add: ex_topic_def)
  from PutMessage_exiting_and_counters [of "ex_topic 1" "bounded_queue 1" ex_heap ex_ctx 3
      ex_ctx "(ex_topic 1)\<lparr>memoryMsgChan := [3], messageCount := 1, messageBytes := 3\<rparr>"] e nx a
  show ?thesis by simp
qed

text \<open>
  C4. For every call of \<^verbatim>\<open>put\<close>: when the send on the memory channel does not
  block, because the pump is parked on the channel or because the buffer has room, the
  message goes to the pump or into the buffer, the backend and the context are
  untouched and the result is nil; otherwise the frame of the message is put to the
  backend, the result of that write is the result of \<^verbatim>\<open>put\<close> and the value of the
  health sentinel, the memory channel is untouched, and the buffer that held the frame
  is back in the pool. Nothing else of the topic changes.
\<close>

theorem put_policy:
  assumes "put bq h c t m = (r, c', t')"
  shows "(receiver_parked t \<longrightarrow>
            r = None \<and> t' = t\<lparr>receiver_parked := False, handed_over := Some m\<rparr> \<and> c' = c)
       \<and> (\<not> receiver_parked t \<and> length (memoryMsgChan t) < memCap t \<longrightarrow>
            r = None \<and> t' = t\<lparr>memoryMsgChan := memoryMsgChan t @ [m]\<rparr> \<and> c' = c)
       \<and> (\<not> receiver_parked t \<and> \<not> length (memoryMsgChan t) < memCap t \<longrightarrow>
            (r, backend t') = bq_Put bq (WriteTo (cells h m) []) (backend t)
            \<and> t' = t\<lparr>backend := backend t'\<rparr>
            \<and> c' = c\<lparr>errValue := r, bp := WriteTo (cells h m) [] # tl (bp c)\<rparr>)"
  using assms
  by (auto simp: put_def Let_def writeMessageToBackend_def bufferPoolGet_def bufferPoolPut_def
      SetHealth_def split: if_splits prod.splits list.splits)

theorem put_policy_witness:
  "put (bounded_queue 1) ex_heap ex_ctx (ex_topic 1) 2 =
     (None, ex_ctx, (ex_topic 1)\<lparr>memoryMsgChan := [2]\<rparr>)
   \<and> put (bounded_queue 0) ex_heap ex_ctx (ex_topic 0) 2 =
     (Some ''disk full'', \<lparr>errValue = Some ''disk full'', bp = [WriteTo (ex_msg 2) []]\<rparr>,
      ex_topic 0)
   \<and> put (bounded_queue 5) ex_heap ex_ctx ((ex_topic 1)\<lparr>memoryMsgChan := [3]\<rparr>) 2 =
     (None, \<lparr>errValue = None, bp = [WriteTo (ex_msg 2) []]\<rparr>,
      (ex_topic 1)\<lparr>memoryMsgChan := [3], backend := [WriteTo (ex_msg 2) []]\<rparr>)
   \<and> put (bounded_queue 5) ex_heap ex_ctx ((ex_topic 1)\<lparr>receiver_parked := True\<rparr>) 2 =
     (None, ex_ctx, (ex_topic 1)\<lparr>handed_over := Some 2\<rparr>)
   \<and> WriteTo (ex_msg 2) [] = [0, 0, 0, 0, 0, 0, 0, 5, 0, 0] @ replicate 16 0 @ [7, 7]"
proof -
  have p1: "put (bounded_queue 1) ex_heap ex_ctx (ex_topic 1) 2 =
              (None, ex_ctx, (ex_topic 1)\<lparr>memoryMsgChan := [2]\<rparr>)"
    by (simp add: put_def ex_topic_def)
  have p2: "put (bounded_queue 0) ex_heap ex_ctx (ex_topic 0) 2 =
     (Some ''disk full'', \<lparr>errValue = Some ''disk full'', bp = [WriteTo (ex_msg 2) []]\<rparr>,
      ex_topic 0)"
    by (simp add: put_def ex_topic_def bounded_queue_def writeMessageToBackend_def
        bufferPoolGet_def bufferPoolPut_def SetHealth_def ex_ctx_def ex_heap_def Let_def)
  have p3: "put (bounded_queue 5) ex_heap ex_ctx ((ex_topic 1)\<lparr>memoryMsgChan := [3]\<rparr>) 2 =
     (None, \<lparr>errValue = None, bp = [WriteTo (ex_msg 2) []]\<rparr>,
      (ex_topic 1)\<lparr>memoryMsgChan := [3], backend := [WriteTo (ex_msg 2) []]\<rparr>)"
    by (simp add: put_def ex_topic_def bounded_queue_def writeMessageToBackend_def
        bufferPoolGet_def bufferPoolPut_def SetHealth_def ex_ctx_def ex_heap_def Let_def)
  have p4: "put (bounded_queue 5) ex_heap ex_ctx ((ex_topic 1)\<lparr>receiver_parked := True\<rparr>) 2 =
     (None, ex_ctx, (ex_topic 1)\<lparr>handed_over := Some 2\<rparr>)"
    by (simp add: put_def ex_topic_def)
  have room: "\<not> receiver_parked (ex_topic 1)
      \<and> length (memoryMsgChan (ex_topic 1)) < memCap (ex_topic 1)"
    and full: "\<not> receiver_parked (ex_topic 0)
      \<and> \<not> length (memoryMsgChan (ex_topic 0)) < memCap (ex_topic 0)"
    and full3: "\<not> receiver_parked ((ex_topic 1)\<lparr>memoryMsgChan := [3]\<rparr>)
      \<and> \<not> length (memoryMsgChan ((ex_topic 1)\<lparr>memoryMsgChan := [3]\<rparr>))
            < memCap ((ex_topic 1)\<lparr>memoryMsgChan := [3]\<rparr>)"
    and parked: "receiver_parked ((ex_topic 1)\<lparr>receiver_parked := True\<rparr>)"
    by (simp_all add: ex_topic_def)
  from put_policy [OF p1] room put_policy [OF p2] full put_policy [OF p3] full3
    put_policy [OF p4] parked p1 p2 p3 p4 ex_frame [of 2]
  show ?thesis by (simp add: numeral_2_eq_2)
qed

theorem put_policy_counterexample:
  "memCap (messagePump_park ex_pump (ex_topic 0)) = 0
   \<and> \<not> length (memoryMsgChan (messagePump_park ex_pump (ex_topic 0)))
         < memCap (messagePump_park ex_pump (ex_topic 0))
   \<and> put (bounded_queue 5) ex_heap ex_ctx (messagePump_park ex_pump (ex_topic 0)) 2 =
       (None, ex_ctx, (ex_topic 0)\<lparr>handed_over := Some 2\<rparr>)
   \<and> backend ((ex_topic 0)\<lparr>handed_over := Some 2\<rparr>) = []
   \<and> memoryMsgChan ((ex_topic 0)\<lparr>handed_over := Some 2\<rparr>) = []
   \<and> errValue ex_ctx = None \<and> bp ex_ctx = []
   \<and> bq_Put (bounded_queue 5) (WriteTo (cells ex_heap 2) [])
        (backend (messagePump_park ex_pump (ex_topic 0))) = (None, [WriteTo (ex_msg 2) []])"
  by (simp add: put_def messagePump_park_def ex_pump_def ex_topic_def ex_ctx_def ex_heap_def
      bounded_queue_def)

section \<open>Theorems: shutdown\<close>

lemma exit_exiting: "exitFlag t \<noteq> 0 \<Longrightarrow> exit bq h d t = (Some ''exiting'', t, [])"
  by (simp add: exit_def)

lemma exit_sets_flag: "exitFlag t = 0 \<Longrightarrow> exit bq h d t = (r, t', es) \<Longrightarrow> exitFlag t' = 1"
  by (auto simp: exit_def Let_def Empty_def flush_def split: prod.splits if_splits)

lemma exit_calls_exiting:
  "exitFlag t \<noteq> 0 \<Longrightarrow> exit_calls bq h ds t = (replicate (length ds) (Some ''exiting'', []), t)"
  by (induction ds) (simp_all add: Delete_def Close_def exit_exiting)

lemma flush_loop_foldl:
  "flush_loop bq h ms b = foldl (\<lambda>b' msg. snd (bq_Put bq (WriteTo (cells h msg) []) b')) b ms"
  by (induction ms arbitrary: b) (auto simp: writeMessageToBackend_def Let_def split: prod.splits)

lemma fmran_single: "fmran (fmupd k v fmempty) = {|v|}"
  by (rule fset_eqI) (auto simp: fmlookup_ran_iff split: if_splits)

text \<open>
  C9. Shutdown is one-shot. The call of \<^verbatim>\<open>Delete\<close> or \<^verbatim>\<open>Close\<close> that finds
  \<open>exitFlag\<close> at 0 sets it to 1 and performs the shutdown sequence: it closes
  \<^verbatim>\<open>exitChan\<close>; when deleting it notifies, removes every channel from the map and
  deletes it, drops the messages of the memory channel, empties the backend and deletes
  it; when closing it closes every channel, writes the frame of every message of the
  memory channel to the backend, oldest first and whatever the writes return, and
  closes the backend. The result is that of deleting or closing the backend. Every
  other call, in any series of calls on the topic, returns the error "exiting", has no
  effect and leaves the topic's state unchanged.
\<close>

theorem exit_one_shot:
  assumes "exitFlag t = 0" and "exit bq h d t = (r, t', es)"
  shows "exitFlag t' = 1 \<and> exitChan_closed t' \<and> memoryMsgChan t' = []
       \<and> es = (if d then [NotifyTopic (name t), CloseExitChan, ChansDeleted (fmran (channelMap t))]
               else [CloseExitChan, ChansClosed (fmran (channelMap t))])
       \<and> (d \<longrightarrow> channelMap t' = fmdrop_fset (chan_name |`| fmran (channelMap t)) (channelMap t)
              \<and> (r, backend t') = bq_Delete bq (snd (bq_Empty bq (backend t))))
       \<and> (\<not> d \<longrightarrow> channelMap t' = channelMap t
              \<and> (r, backend t') =
                  bq_Close bq
                   (foldl (\<lambda>b msg. snd (bq_Put bq (WriteTo (cells h msg) []) b))
                      (backend t) (memoryMsgChan t)))
       \<and> t' = t\<lparr>exitFlag := 1, exitChan_closed := True, receiver_parked := False,
                 channelMap := channelMap t', memoryMsgChan := [], backend := backend t'\<rparr>
       \<and> exit_calls bq h (d # ds) t = ((r, es) # replicate (length ds) (Some ''exiting'', []), t')
       \<and> exit bq h d' t' = (Some ''exiting'', t', [])"
proof -
  from assms have f: "exitFlag t' = 1" by (rule exit_sets_flag)
  then have nz: "exitFlag t' \<noteq> 0" by simp
  from assms have parts: "exitChan_closed t' \<and> memoryMsgChan t' = []
       \<and> es = (if d then [NotifyTopic (name t), CloseExitChan, ChansDeleted (fmran (channelMap t))]
               else [CloseExitChan, ChansClosed (fmran (channelMap t))])
       \<and> (d \<longrightarrow> channelMap t' = fmdrop_fset (chan_name |`| fmran (channelMap t)) (channelMap t)
              \<and> (r, backend t') = bq_Delete bq (snd (bq_Empty bq (backend t))))
       \<and> (\<not> d \<longrightarrow> channelMap t' = channelMap t
              \<and> (r, backend t') = bq_Close bq (flush_loop bq h (memoryMsgChan t) (backend t)))
       \<and> t' = t\<lparr>exitFlag := 1, exitChan_closed := True, receiver_parked := False,
                 channelMap := channelMap t', memoryMsgChan := [], backend := backend t'\<rparr>"
    by (auto simp: exit_def Let_def Empty_def flush_def split: prod.splits if_splits)
  from assms exit_calls_exiting [OF nz, of bq h ds]
  have calls: "exit_calls bq h (d # ds) t = ((r, es) # replicate (length ds) (Some ''exiting'', []), t')"
    by (cases d) (simp_all add: Delete_def Close_def)
  from f parts calls exit_exiting [OF nz] show ?thesis
    by (simp add: flush_loop_foldl)
qed

theorem exit_one_shot_witness:
  "exit (bounded_queue 5) ex_heap False
     ((ex_topic 1)\<lparr>memoryMsgChan := [2, 3], channelMap := fmupd ''c#ephemeral'' (ex_chan 0) fmempty\<rparr>) =
     (None,
      (ex_topic 1)\<lparr>channelMap := fmupd ''c#ephemeral'' (ex_chan 0) fmempty, exitFlag := 1,
                   exitChan_closed := True,
                   backend := [WriteTo (ex_msg 2) [], WriteTo (ex_msg 3) []]\<rparr>,
      [CloseExitChan, ChansClosed {|ex_chan 0|}])
   \<and> exit (bounded_queue 1) ex_heap False
     ((ex_topic 1)\<lparr>memoryMsgChan := [2, 3], channelMap := fmupd ''c#ephemeral'' (ex_chan 0) fmempty\<rparr>) =
     (None,
      (ex_topic 1)\<lparr>channelMap := fmupd ''c#ephemeral'' (ex_chan 0) fmempty, exitFlag := 1,
                   exitChan_closed := True, backend := [WriteTo (ex_msg 2) []]\<rparr>,
      [CloseExitChan, ChansClosed {|ex_chan 0|}])
   \<and> exit (bounded_queue 5) ex_heap True
     ((ex_topic 1)\<lparr>memoryMsgChan := [2, 3], channelMap := fmupd ''c#ephemeral'' (ex_chan 0) fmempty,
                  backend := [WriteTo (ex_msg 4) []]\<rparr>) =
     (None, (ex_topic 1)\<lparr>exitFlag := 1, exitChan_closed := True\<rparr>,
      [NotifyTopic ''foo#ephemeral'', CloseExitChan, ChansDeleted {|ex_chan 0|}])
   \<and> exit_calls (bounded_queue 5) ex_heap [False, True, False]
     ((ex_topic 1)\<lparr>memoryMsgChan := [2, 3], channelMap := fmupd ''c#ephemeral'' (ex_chan 0) fmempty\<rparr>) =
     ([(None, [CloseExitChan, ChansClosed {|ex_chan 0|}]),
       (Some ''exiting'', []), (Some ''exiting'', [])],
      (ex_topic 1)\<lparr>channelMap := fmupd ''c#ephemeral'' (ex_chan 0) fmempty, exitFlag := 1,
                   exitChan_closed := True,
                   backend := [WriteTo (ex_msg 2) [], WriteTo (ex_msg 3) []]\<rparr>)
   \<and> WriteTo (ex_msg 3) [] = [0, 0, 0, 0, 0, 0, 0, 5, 0, 0] @ replicate 16 0 @ [7, 7, 7]"
proof -
  let ?t = "(ex_topic 1)\<lparr>memoryMsgChan := [2, 3],
              channelMap := fmupd ''c#ephemeral'' (ex_chan 0) fmempty\<rparr>"
  let ?td = "(ex_topic 1)\<lparr>memoryMsgChan := [2, 3],
              channelMap := fmupd ''c#ephemeral'' (ex_chan 0) fmempty,
              backend := [WriteTo (ex_msg 4) []]\<rparr>"
  have z: "exitFlag ?t = 0" "exitFlag ?td = 0"
    by (simp_all add: ex_topic_def)
  have drop: "fmdrop_fset {|''c#ephemeral''|} (fmupd ''c#ephemeral'' (ex_chan 0) fmempty) = fmempty"
    by (simp add: fmdrop_fmupd_same)
  have c5: "exit (bounded_queue 5) ex_heap False ?t =
     (None,
      (ex_topic 1)\<lparr>channelMap := fmupd ''c#ephemeral'' (ex_chan 0) fmempty, exitFlag := 1,
                   exitChan_closed := True,
                   backend := [WriteTo (ex_msg 2) [], WriteTo (ex_msg 3) []]\<rparr>,
      [CloseExitChan, ChansClosed {|ex_chan 0|}])"
    by (simp add: exit_def flush_def writeMessageToBackend_def ex_topic_def ex_heap_def
        bounded_queue_def fmran_single Let_def)
  have c1: "exit (bounded_queue 1) ex_heap False ?t =
     (None,
      (ex_topic 1)\<lparr>channelMap := fmupd ''c#ephemeral'' (ex_chan 0) fmempty, exitFlag := 1,
                   exitChan_closed := True, backend := [WriteTo (ex_msg 2) []]\<rparr>,
      [CloseExitChan, ChansClosed {|ex_chan 0|}])"
    by (simp add: exit_def flush_def writeMessageToBackend_def ex_topic_def ex_heap_def
        bounded_queue_def fmran_single Let_def)
  have d5: "exit (bounded_queue 5) ex_heap True ?td =
     (None, (ex_topic 1)\<lparr>exitFlag := 1, exitChan_closed := True\<rparr>,
      [NotifyTopic ''foo#ephemeral'', CloseExitChan, ChansDeleted {|ex_chan 0|}])"
    using drop
    by (simp add: exit_def Empty_def ex_topic_def ex_chan_def bounded_queue_def fmran_single Let_def)
  from exit_one_shot [OF z(1) c5, of "[True, False]" True]
    exit_one_shot [OF z(1) c1] exit_one_shot [OF z(2) d5] c5 c1 d5 ex_frame [of 3]
  show ?thesis by (simp add: numeral_3_eq_3)
qed

section \<open>Theorems: the deletion callback of an ephemeral topic\<close>

lemma callback_count_append [simp]:
  "callback_count (xs @ ys) = callback_count xs + callback_count ys"
  by (simp add: callback_count_def)

lemma callback_count_updateSignal [simp]: "callback_count (updateSignal t) = 0"
  by (simp add: callback_count_def updateSignal_def)

lemma GetChannel_deleter:
  "GetChannel cid c t = (ch, t1, es) \<Longrightarrow>
     callback_count es = 0 \<and> deleter t1 = deleter t \<and> ephemeral t1 = ephemeral t"
  by (auto simp: GetChannel_def getOrCreateChannel_def Let_def callback_count_def updateSignal_def
      split: option.splits prod.splits if_splits)

lemma DeleteExistingChannel_deleter:
  "DeleteExistingChannel c t = (r, t1, es) \<Longrightarrow>
     callback_count es + (if deleter t then 1 else 0) = (if deleter t1 then 1 else 0)
     \<and> ephemeral t1 = ephemeral t"
  by (auto simp: DeleteExistingChannel_def deleter_Do_def Let_def callback_count_def updateSignal_def
      split: option.splits prod.splits if_splits)

lemma run_ops_deleter:
  "run_ops ops t = (t', es) \<Longrightarrow>
     callback_count es + (if deleter t then 1 else 0) = (if deleter t' then 1 else 0)"
proof (induction ops arbitrary: t t' es)
  case Nil
  then show ?case by (simp add: callback_count_def)
next
  case (Cons op ops)
  show ?case
  proof (cases op)
    case (OpGetChannel cid c)
    with Cons.prems obtain ch t1 es1 es2 where
      g: "GetChannel cid c t = (ch, t1, es1)" and r: "run_ops ops t1 = (t', es2)"
      and e: "es = es1 @ es2"
      by (auto split: prod.splits)
    from GetChannel_deleter [OF g] Cons.IH [OF r] e show ?thesis by simp
  next
    case (OpDeleteExistingChannel c)
    with Cons.prems obtain rr t1 es1 es2 where
      g: "DeleteExistingChannel c t = (rr, t1, es1)" and r: "run_ops ops t1 = (t', es2)"
      and e: "es = es1 @ es2"
      by (auto split: prod.splits)
    from DeleteExistingChannel_deleter [OF g] Cons.IH [OF r] e show ?thesis
      by (simp split: if_splits)
  qed
qed

lemma DeleteExistingChannel_twice:
  "DeleteExistingChannel c t = (None, t1, es) \<Longrightarrow>
     DeleteExistingChannel c t1 = (Some ''channel does not exist'', t1, [])"
  by (auto simp: DeleteExistingChannel_def deleter_Do_def Let_def
      split: option.splits prod.splits if_splits)

lemma DeleteExistingChannel_last:
  assumes "ephemeral t" and "\<not> deleter t" and "fmdom (channelMap t) = {|c|}"
  shows "\<exists>ch. fmlookup (channelMap t) c = Some ch
           \<and> DeleteExistingChannel c t =
               (None, t\<lparr>channelMap := fmempty, deleter := True\<rparr>,
                ChanDelete ch # updateSignal t @ [DeleteCallback (name t)])"
proof -
  from assms(3) have "c |\<in>| fmdom (channelMap t)" by simp
  then obtain ch where ch: "fmlookup (channelMap t) c = Some ch"
    by (auto simp: fmlookup_dom_iff)
  from assms(3) have "fmdom (fmdrop c (channelMap t)) = {||}" by simp
  then have emp: "fmdrop c (channelMap t) = fmempty"
    by (metis fmrestrict_fset_dom fmrestrict_fset_null)
  from ch emp assms(1,2) show ?thesis
    by (simp add: DeleteExistingChannel_def deleter_Do_def Let_def updateSignal_def)
qed

lemma fmdom_is_empty: "fmdom m = {||} \<longleftrightarrow> m = fmempty"
proof
  assume "fmdom m = {||}"
  then show "m = fmempty"
    by (metis fmrestrict_fset_dom fmrestrict_fset_null)
next
  assume "m = fmempty"
  then show "fmdom m = {||}" by simp
qed

lemma numChannels_zero: "fcard (fmdom m) = 0 \<longleftrightarrow> m = fmempty"
  by (simp add: fmdom_is_empty)

lemma DeleteExistingChannel_exact:
  "DeleteExistingChannel c t =
     (case fmlookup (channelMap t) c of
        None \<Rightarrow> (Some ''channel does not exist'', t, [])
      | Some ch \<Rightarrow>
          (None,
           t\<lparr>channelMap := fmdrop c (channelMap t),
             deleter := (deleter t \<or> (fmdrop c (channelMap t) = fmempty \<and> ephemeral t))\<rparr>,
           ChanDelete ch # updateSignal t @
             (if fmdrop c (channelMap t) = fmempty \<and> ephemeral t \<and> \<not> deleter t
              then [DeleteCallback (name t)] else [])))"
  by (auto simp add: DeleteExistingChannel_def deleter_Do_def Let_def updateSignal_def
      numChannels_zero fmdom_is_empty simp del: fmdom_drop split: option.splits)

text \<open>
  C7. On an ephemeral topic, \<^verbatim>\<open>DeleteExistingChannel\<close> of a channel that exists removes
  it, deletes it and signals the pump, and it invokes the deletion callback exactly when
  no channel remains and the \<^verbatim>\<open>sync.Once\<close> has not run before, which it then has;
  while a channel remains, or once the latch has run, the callback is not invoked. A
  delete of a channel that does not exist, such as a second delete of the same channel,
  returns "channel does not exist" with no effect and the state unchanged. Hence over
  any series of \<^verbatim>\<open>GetChannel\<close> and \<^verbatim>\<open>DeleteExistingChannel\<close> calls the callback is
  invoked at most once, exactly once if and only if the latch has run at the end, and
  never after the latch has run.
\<close>

theorem ephemeral_deleter_once:
  assumes "ephemeral t"
  shows "DeleteExistingChannel c t =
           (case fmlookup (channelMap t) c of
              None \<Rightarrow> (Some ''channel does not exist'', t, [])
            | Some ch \<Rightarrow>
                (None,
                 t\<lparr>channelMap := fmdrop c (channelMap t),
                   deleter := (deleter t \<or> fmdrop c (channelMap t) = fmempty)\<rparr>,
                 ChanDelete ch # updateSignal t @
                   (if fmdrop c (channelMap t) = fmempty \<and> \<not> deleter t
                    then [DeleteCallback (name t)] else [])))
       \<and> (\<not> deleter t \<longrightarrow> run_ops ops t = (t', es) \<longrightarrow>
            callback_count es \<le> 1 \<and> (callback_count es = 1 \<longleftrightarrow> deleter t'))
       \<and> (deleter t \<longrightarrow> run_ops ops t = (t', es) \<longrightarrow> callback_count es = 0)
       \<and> (\<not> deleter t \<longrightarrow> fmdom (channelMap t) = {|c|} \<longrightarrow>
            (\<exists>ch. DeleteExistingChannel c t =
               (None, t\<lparr>channelMap := fmempty, deleter := True\<rparr>,
                ChanDelete ch # updateSignal t @ [DeleteCallback (name t)])))
       \<and> (DeleteExistingChannel c t = (None, t1, es1) \<longrightarrow>
            DeleteExistingChannel c t1 = (Some ''channel does not exist'', t1, [])
            \<and> (\<not> deleter t \<longrightarrow> run_ops ops' t1 = (t2, es2) \<longrightarrow> callback_count (es1 @ es2) \<le> 1))"
proof (intro conjI impI)
  show "DeleteExistingChannel c t =
           (case fmlookup (channelMap t) c of
              None \<Rightarrow> (Some ''channel does not exist'', t, [])
            | Some ch \<Rightarrow>
                (None,
                 t\<lparr>channelMap := fmdrop c (channelMap t),
                   deleter := (deleter t \<or> fmdrop c (channelMap t) = fmempty)\<rparr>,
                 ChanDelete ch # updateSignal t @
                   (if fmdrop c (channelMap t) = fmempty \<and> \<not> deleter t
                    then [DeleteCallback (name t)] else [])))"
    using assms by (simp add: DeleteExistingChannel_exact split: option.splits)
next
  assume nd: "\<not> deleter t" and r: "run_ops ops t = (t', es)"
  from run_ops_deleter [OF r] nd
  show "callback_count es \<le> 1" "callback_count es = 1 \<longleftrightarrow> deleter t'"
    by (simp_all split: if_splits)
next
  assume d: "deleter t" and r: "run_ops ops t = (t', es)"
  from run_ops_deleter [OF r] d show "callback_count es = 0"
    by (simp split: if_splits)
next
  assume nd: "\<not> deleter t" and one: "fmdom (channelMap t) = {|c|}"
  from DeleteExistingChannel_last [OF assms nd one]
  show "\<exists>ch. DeleteExistingChannel c t =
               (None, t\<lparr>channelMap := fmempty, deleter := True\<rparr>,
                ChanDelete ch # updateSignal t @ [DeleteCallback (name t)])"
    by blast
next
  assume d: "DeleteExistingChannel c t = (None, t1, es1)"
  then show "DeleteExistingChannel c t1 = (Some ''channel does not exist'', t1, [])"
    by (rule DeleteExistingChannel_twice)
  assume nd: "\<not> deleter t" and r: "run_ops ops' t1 = (t2, es2)"
  from DeleteExistingChannel_deleter [OF d] run_ops_deleter [OF r] nd
  show "callback_count (es1 @ es2) \<le> 1"
    by (simp split: if_splits)
qed

lemma ex_GetChannel:
  "fmlookup m nm = None \<Longrightarrow>
   GetChannel k nm ((ex_topic 1)\<lparr>deleter := b, channelMap := m\<rparr>) =
     (\<lparr>chan_name = nm, chan_id = k\<rparr>,
      (ex_topic 1)\<lparr>deleter := b, channelMap := fmupd nm \<lparr>chan_name = nm, chan_id = k\<rparr> m\<rparr>,
      [ChannelUpdateSignal])"
  by (simp add: GetChannel_def getOrCreateChannel_def NewChannel_def ex_topic_def
      updateSignal_def Let_def)

lemma ex_updateSignal: "updateSignal ((ex_topic 1)\<lparr>deleter := b, channelMap := m\<rparr>) = [ChannelUpdateSignal]"
  by (simp add: updateSignal_def ex_topic_def)

theorem ephemeral_deleter_once_witness:
  "run_ops [OpGetChannel 0 ''a'', OpGetChannel 1 ''b'', OpDeleteExistingChannel ''a'',
            OpDeleteExistingChannel ''b'', OpDeleteExistingChannel ''b'',
            OpGetChannel 2 ''a'', OpDeleteExistingChannel ''a''] (ex_topic 1) =
     ((ex_topic 1)\<lparr>deleter := True\<rparr>,
      [ChannelUpdateSignal, ChannelUpdateSignal,
       ChanDelete \<lparr>chan_name = ''a'', chan_id = 0\<rparr>, ChannelUpdateSignal,
       ChanDelete \<lparr>chan_name = ''b'', chan_id = 1\<rparr>, ChannelUpdateSignal,
       DeleteCallback ''foo#ephemeral'',
       ChannelUpdateSignal,
       ChanDelete \<lparr>chan_name = ''a'', chan_id = 2\<rparr>, ChannelUpdateSignal])
   \<and> DeleteExistingChannel ''a''
        ((ex_topic 1)\<lparr>channelMap :=
           fmupd ''b'' \<lparr>chan_name = ''b'', chan_id = 1\<rparr>
             (fmupd ''a'' \<lparr>chan_name = ''a'', chan_id = 0\<rparr> fmempty)\<rparr>) =
       (None,
        (ex_topic 1)\<lparr>channelMap := fmupd ''b'' \<lparr>chan_name = ''b'', chan_id = 1\<rparr> fmempty\<rparr>,
        [ChanDelete \<lparr>chan_name = ''a'', chan_id = 0\<rparr>, ChannelUpdateSignal])
   \<and> DeleteExistingChannel ''b''
        ((ex_topic 1)\<lparr>channelMap := fmupd ''b'' \<lparr>chan_name = ''b'', chan_id = 1\<rparr> fmempty\<rparr>) =
       (None, (ex_topic 1)\<lparr>deleter := True\<rparr>,
        [ChanDelete \<lparr>chan_name = ''b'', chan_id = 1\<rparr>, ChannelUpdateSignal,
         DeleteCallback ''foo#ephemeral''])
   \<and> DeleteExistingChannel ''b'' ((ex_topic 1)\<lparr>deleter := True\<rparr>) =
       (Some ''channel does not exist'', (ex_topic 1)\<lparr>deleter := True\<rparr>, [])
   \<and> callback_count
       [ChannelUpdateSignal, ChannelUpdateSignal,
        ChanDelete \<lparr>chan_name = ''a'', chan_id = 0\<rparr>, ChannelUpdateSignal,
        ChanDelete \<lparr>chan_name = ''b'', chan_id = 1\<rparr>, ChannelUpdateSignal,
        DeleteCallback ''foo#ephemeral'',
        ChannelUpdateSignal,
        ChanDelete \<lparr>chan_name = ''a'', chan_id = 2\<rparr>, ChannelUpdateSignal] = 1"
proof -
  let ?a0 = "\<lparr>chan_name = ''a'', chan_id = 0\<rparr>"
  let ?b1 = "\<lparr>chan_name = ''b'', chan_id = 1\<rparr>"
  let ?a2 = "\<lparr>chan_name = ''a'', chan_id = 2\<rparr>"
  let ?t2 = "(ex_topic 1)\<lparr>channelMap := fmupd ''b'' ?b1 (fmupd ''a'' ?a0 fmempty)\<rparr>"
  let ?t1 = "(ex_topic 1)\<lparr>channelMap := fmupd ''b'' ?b1 fmempty\<rparr>"
  let ?td = "(ex_topic 1)\<lparr>deleter := True\<rparr>"
  have eph: "ephemeral (ex_topic 1)" "ephemeral ?t2" "ephemeral ?t1" "ephemeral ?td"
    and nd: "\<not> deleter (ex_topic 1)"
    by (simp_all add: ex_topic_def)
  have same: "(ex_topic 1)\<lparr>deleter := False, channelMap := fmempty\<rparr> = ex_topic 1"
    "(ex_topic 1)\<lparr>deleter := True, channelMap := fmempty\<rparr> = ?td"
    by (simp_all add: ex_topic_def)
  have drop_a: "fmdrop ''a'' (fmupd ''b'' ?b1 (fmupd ''a'' ?a0 fmempty)) = fmupd ''b'' ?b1 fmempty"
    by (simp add: fmdrop_fmupd)
  have ne: "fmupd ''b'' ?b1 fmempty \<noteq> (fmempty :: (string, Channel) fmap)"
    by (metis fmupd_lookup fmempty_lookup option.distinct(1))
  from ephemeral_deleter_once [OF eph(2), of "''a''"] drop_a ne
  have d1: "DeleteExistingChannel ''a'' ?t2 = (None, ?t1, [ChanDelete ?a0, ChannelUpdateSignal])"
    by (simp add: ex_topic_def updateSignal_def)
  from ephemeral_deleter_once [OF eph(3), of "''b''"]
  have d2: "DeleteExistingChannel ''b'' ?t1 =
      (None, ?td, [ChanDelete ?b1, ChannelUpdateSignal, DeleteCallback ''foo#ephemeral''])"
    by (simp add: ex_topic_def updateSignal_def fmdrop_fmupd_same)
  from ephemeral_deleter_once [OF eph(4), of "''b''"]
  have d3: "DeleteExistingChannel ''b'' ?td = (Some ''channel does not exist'', ?td, [])"
    by (simp add: ex_topic_def)
  have g1: "GetChannel 0 ''a'' (ex_topic 1) =
      (?a0, (ex_topic 1)\<lparr>channelMap := fmupd ''a'' ?a0 fmempty\<rparr>, [ChannelUpdateSignal])"
    using ex_GetChannel [of fmempty "''a''" 0 False] same by (simp add: ex_topic_def)
  have g2: "GetChannel 1 ''b'' ((ex_topic 1)\<lparr>channelMap := fmupd ''a'' ?a0 fmempty\<rparr>) =
      (?b1, ?t2, [ChannelUpdateSignal])"
    using ex_GetChannel [of "fmupd ''a'' ?a0 fmempty" "''b''" 1 False] by (simp add: ex_topic_def)
  have g3: "GetChannel 2 ''a'' ?td =
      (?a2, (ex_topic 1)\<lparr>deleter := True, channelMap := fmupd ''a'' ?a2 fmempty\<rparr>,
       [ChannelUpdateSignal])"
    using ex_GetChannel [of fmempty "''a''" 2 True] same by (simp add: ex_topic_def)
  from ephemeral_deleter_once [of "(ex_topic 1)\<lparr>deleter := True, channelMap := fmupd ''a'' ?a2 fmempty\<rparr>" "''a''"]
  have d4: "DeleteExistingChannel ''a''
              ((ex_topic 1)\<lparr>deleter := True, channelMap := fmupd ''a'' ?a2 fmempty\<rparr>) =
      (None, ?td, [ChanDelete ?a2, ChannelUpdateSignal])"
    by (simp add: ex_topic_def updateSignal_def fmdrop_fmupd_same)
  have r: "run_ops [OpGetChannel 0 ''a'', OpGetChannel 1 ''b'', OpDeleteExistingChannel ''a'',
            OpDeleteExistingChannel ''b'', OpDeleteExistingChannel ''b'',
            OpGetChannel 2 ''a'', OpDeleteExistingChannel ''a''] (ex_topic 1) =
     (?td,
      [ChannelUpdateSignal, ChannelUpdateSignal, ChanDelete ?a0, ChannelUpdateSignal,
       ChanDelete ?b1, ChannelUpdateSignal, DeleteCallback ''foo#ephemeral'',
       ChannelUpdateSignal, ChanDelete ?a2, ChannelUpdateSignal])"
    using g1 g2 d1 d2 d3 g3 d4 by simp
  from ephemeral_deleter_once [OF eph(1), THEN conjunct2, THEN conjunct1, THEN mp, OF nd,
      THEN mp, OF r]
  have cnt: "callback_count
       [ChannelUpdateSignal, ChannelUpdateSignal, ChanDelete ?a0, ChannelUpdateSignal,
        ChanDelete ?b1, ChannelUpdateSignal, DeleteCallback ''foo#ephemeral'',
        ChannelUpdateSignal, ChanDelete ?a2, ChannelUpdateSignal] = 1"
    by simp
  from r d1 d2 d3 cnt show ?thesis by simp
qed

section \<open>Theorems: the fan-out\<close>

lemma copy_message_props:
  assumes "msg < next_ref h" and "copy_message now msg h = (r, h')"
  shows "r = next_ref h \<and> next_ref h' = Suc (next_ref h)
       \<and> (\<forall>q. q \<noteq> next_ref h \<longrightarrow> cells h' q = cells h q)
       \<and> ID (cells h' r) = ID (cells h msg) \<and> Body (cells h' r) = Body (cells h msg)
       \<and> Timestamp (cells h' r) = Timestamp (cells h msg)
       \<and> deferred (cells h' r) = deferred (cells h msg)
       \<and> Attempts (cells h' r) = 0"
  using assms by (auto simp: copy_message_def NewMessage_def Let_def)

lemma fan_out_loop_copies:
  assumes "msg < next_ref h" and "0 < i" and "fan_out_loop clock msg i cs h = (es, h')"
  shows "length es = length cs \<and> next_ref h' = next_ref h + length cs
       \<and> (\<forall>q < next_ref h. cells h' q = cells h q)
       \<and> (\<forall>j < length cs.
             es ! j = chan_call (cs ! j) (next_ref h + j) (deferred (cells h msg))
           \<and> ID (cells h' (next_ref h + j)) = ID (cells h msg)
           \<and> Body (cells h' (next_ref h + j)) = Body (cells h msg)
           \<and> Timestamp (cells h' (next_ref h + j)) = Timestamp (cells h msg)
           \<and> deferred (cells h' (next_ref h + j)) = deferred (cells h msg)
           \<and> Attempts (cells h' (next_ref h + j)) = 0)"
  using assms
proof (induction cs arbitrary: i h es h')
  case Nil
  then show ?case by simp
next
  case (Cons c cs)
  obtain r h1 where cp: "copy_message (clock i) msg h = (r, h1)"
    by (cases "copy_message (clock i) msg h")
  note P = copy_message_props [OF Cons.prems(1) cp]
  obtain es1 h2 where rec: "fan_out_loop clock msg (Suc i) cs h1 = (es1, h2)"
    by (cases "fan_out_loop clock msg (Suc i) cs h1")
  from P Cons.prems(1) have m1: "msg < next_ref h1" and same: "cells h1 msg = cells h msg"
    by auto
  note IH = Cons.IH [OF m1 _ rec, simplified]
  from Cons.prems(2,3) cp rec
  have es: "es = chan_call c r (deferred (cells h1 r)) # es1" and h': "h' = h2"
    by (simp_all add: chan_call_def)
  have keep: "\<forall>q < next_ref h1. cells h' q = cells h1 q"
    using IH h' by simp
  have r: "r = next_ref h" "next_ref h1 = Suc (next_ref h)" using P by simp_all
  show ?case
  proof (intro conjI allI impI)
    show "length es = length (c # cs)" using es IH by simp
    show "next_ref h' = next_ref h + length (c # cs)" using IH h' r by simp
  next
    fix q assume "q < next_ref h"
    then show "cells h' q = cells h q" using keep r P by simp
  next
    fix j assume j: "j < length (c # cs)"
    show "es ! j = chan_call ((c # cs) ! j) (next_ref h + j) (deferred (cells h msg))"
    proof (cases j)
      case 0
      then show ?thesis using es r P by auto
    next
      case (Suc k)
      with j have "k < length cs" by simp
      with IH Suc es r same show ?thesis by simp
    qed
    have fields: "ID (cells h' (next_ref h + j)) = ID (cells h msg)
           \<and> Body (cells h' (next_ref h + j)) = Body (cells h msg)
           \<and> Timestamp (cells h' (next_ref h + j)) = Timestamp (cells h msg)
           \<and> deferred (cells h' (next_ref h + j)) = deferred (cells h msg)
           \<and> Attempts (cells h' (next_ref h + j)) = 0"
    proof (cases j)
      case 0
      then show ?thesis using keep r P by auto
    next
      case (Suc k)
      with j have "k < length cs" by simp
      with IH Suc r same h' show ?thesis by simp
    qed
    from fields show "ID (cells h' (next_ref h + j)) = ID (cells h msg)" by simp
    from fields show "Body (cells h' (next_ref h + j)) = Body (cells h msg)" by simp
    from fields show "Timestamp (cells h' (next_ref h + j)) = Timestamp (cells h msg)" by simp
    from fields show "deferred (cells h' (next_ref h + j)) = deferred (cells h msg)" by simp
    from fields show "Attempts (cells h' (next_ref h + j)) = 0" by simp
  qed
qed

lemma fan_out_props:
  assumes "msg < next_ref h" and "fan_out clock msg cs h = (es, h')" and "i < length cs"
  shows "length es = length cs
       \<and> es ! i = chan_call (cs ! i) (chan_ref h msg i) (deferred (cells h msg))
       \<and> ID (cells h' (chan_ref h msg i)) = ID (cells h msg)
       \<and> Body (cells h' (chan_ref h msg i)) = Body (cells h msg)
       \<and> Timestamp (cells h' (chan_ref h msg i)) = Timestamp (cells h msg)
       \<and> deferred (cells h' (chan_ref h msg i)) = deferred (cells h msg)
       \<and> (0 < i \<longrightarrow> next_ref h \<le> chan_ref h msg i \<and> chan_ref h msg i < next_ref h'
                   \<and> Attempts (cells h' (chan_ref h msg i)) = 0)"
proof (cases cs)
  case Nil
  with assms(3) show ?thesis by simp
next
  case (Cons c rest)
  obtain es1 h2 where rec: "fan_out_loop clock msg (Suc 0) rest h = (es1, h2)"
    by (cases "fan_out_loop clock msg (Suc 0) rest h")
  from assms(2) Cons rec
  have es: "es = chan_call c msg (deferred (cells h msg)) # es1" and h': "h' = h2"
    by (simp_all add: fan_out_def chan_call_def)
  note L = fan_out_loop_copies [OF assms(1) _ rec, simplified]
  from L assms(1) h' have orig: "cells h' msg = cells h msg" by simp
  show ?thesis
  proof (cases i)
    case 0
    with es L orig Cons show ?thesis by (simp add: chan_ref_def)
  next
    case (Suc k)
    with assms(3) Cons have k: "k < length rest" by simp
    with L have "es1 ! k = chan_call (rest ! k) (next_ref h + k) (deferred (cells h msg))
           \<and> ID (cells h2 (next_ref h + k)) = ID (cells h msg)
           \<and> Body (cells h2 (next_ref h + k)) = Body (cells h msg)
           \<and> Timestamp (cells h2 (next_ref h + k)) = Timestamp (cells h msg)
           \<and> deferred (cells h2 (next_ref h + k)) = deferred (cells h msg)
           \<and> Attempts (cells h2 (next_ref h + k)) = 0"
      by blast
    with Suc es h' L Cons k show ?thesis by (simp add: chan_ref_def)
  qed
qed

lemma pump_takes_allocated:
  assumes "pump_takes ev s t h = Some (msg, t0, h0)"
    and "\<forall>m \<in> set (memoryMsgChan t) \<union> set_option (handed_over t). m < next_ref h"
  shows "msg < next_ref h0"
  using assms
  by (auto simp: pump_takes_def
      split: pump_event.splits list.splits sum.splits if_splits option.splits)

text \<open>
  C1. Whenever the pump takes a message \<open>msg\<close> from the memory queue (out of the buffer
  or handed over by a sender) or decodes one from the backend, for the cached channels \<open>c0..c(k-1)\<close> it makes exactly \<open>k\<close> calls, the
  \<open>i\<close>-th on \<open>ci\<close>: \<^verbatim>\<open>PutMessageDeferred\<close> when the deferred field of the message is
  non-zero and \<^verbatim>\<open>PutMessage\<close> otherwise. The first channel is handed \<open>msg\<close> itself;
  every later channel is handed a reference that was not allocated before, different
  from the reference of every other channel, to a message whose id, body, timestamp and
  deferred value are those of \<open>msg\<close>.
\<close>

theorem messagePump_fan_out:
  assumes "pump_takes ev s t h = Some (msg, t0, h0)"
    and "\<forall>m \<in> set (memoryMsgChan t) \<union> set_option (handed_over t). m < next_ref h"
    and "messagePump_step clock ev s t h = (s', t', h', es)"
    and "i < length (pump_chans s)"
  shows "length es = length (pump_chans s)
       \<and> es ! i =
           (if deferred (cells h0 msg) \<noteq> 0
            then ChanPutMessageDeferred (pump_chans s ! i) (chan_ref h0 msg i) (deferred (cells h0 msg))
            else ChanPutMessage (pump_chans s ! i) (chan_ref h0 msg i))
       \<and> chan_ref h0 msg 0 = msg
       \<and> ID (cells h' (chan_ref h0 msg i)) = ID (cells h0 msg)
       \<and> Body (cells h' (chan_ref h0 msg i)) = Body (cells h0 msg)
       \<and> Timestamp (cells h' (chan_ref h0 msg i)) = Timestamp (cells h0 msg)
       \<and> deferred (cells h' (chan_ref h0 msg i)) = deferred (cells h0 msg)
       \<and> (0 < i \<longrightarrow> next_ref h0 \<le> chan_ref h0 msg i \<and> chan_ref h0 msg i < next_ref h')
       \<and> (j < length (pump_chans s) \<longrightarrow> j \<noteq> i \<longrightarrow> chan_ref h0 msg j \<noteq> chan_ref h0 msg i)"
proof -
  from assms(1,2) have al: "msg < next_ref h0" by (rule pump_takes_allocated)
  from assms(1,3) have f: "fan_out clock msg (pump_chans s) h0 = (es, h')"
    by (simp add: messagePump_step_def split: prod.splits)
  from fan_out_props [OF al f assms(4)]
  have main: "length es = length (pump_chans s)
       \<and> es ! i = chan_call (pump_chans s ! i) (chan_ref h0 msg i) (deferred (cells h0 msg))
       \<and> ID (cells h' (chan_ref h0 msg i)) = ID (cells h0 msg)
       \<and> Body (cells h' (chan_ref h0 msg i)) = Body (cells h0 msg)
       \<and> Timestamp (cells h' (chan_ref h0 msg i)) = Timestamp (cells h0 msg)
       \<and> deferred (cells h' (chan_ref h0 msg i)) = deferred (cells h0 msg)
       \<and> (0 < i \<longrightarrow> next_ref h0 \<le> chan_ref h0 msg i \<and> chan_ref h0 msg i < next_ref h')"
    by blast
  have dist: "j \<noteq> i \<longrightarrow> chan_ref h0 msg j \<noteq> chan_ref h0 msg i"
    using al by (auto simp: chan_ref_def)
  from main dist show ?thesis by (simp add: chan_call_def chan_ref_def)
qed

theorem messagePump_fan_out_witness:
  "snd (snd (snd (messagePump_step (\<lambda>k. 99) RecvMemory ex_pump
        ((ex_topic 1)\<lparr>memoryMsgChan := [3]\<rparr>) ex_heap))) ! 2 = ChanPutMessage (ex_chan 2) 11
   \<and> Body (cells (fst (snd (snd (messagePump_step (\<lambda>k. 99) RecvMemory ex_pump
        ((ex_topic 1)\<lparr>memoryMsgChan := [3]\<rparr>) ex_heap)))) 11) = replicate 3 7
   \<and> Timestamp (cells (fst (snd (snd (messagePump_step (\<lambda>k. 99) RecvMemory ex_pump
        ((ex_topic 1)\<lparr>memoryMsgChan := [3]\<rparr>) ex_heap)))) 11) = 5
   \<and> snd (snd (snd (messagePump_step (\<lambda>k. 99) RecvMemory ex_pump
        ((ex_topic 1)\<lparr>memoryMsgChan := [4]\<rparr>) ex_heap_deferred))) ! 1 =
       ChanPutMessageDeferred (ex_chan 1) 10 500
   \<and> deferred (cells (fst (snd (snd (messagePump_step (\<lambda>k. 99) RecvMemory ex_pump
        ((ex_topic 1)\<lparr>memoryMsgChan := [4]\<rparr>) ex_heap_deferred)))) 10) = 500
   \<and> snd (snd (snd (messagePump_step (\<lambda>k. 99) RecvMemory ex_pump
        ((ex_topic 0)\<lparr>handed_over := Some 6\<rparr>) ex_heap))) ! 0 = ChanPutMessage (ex_chan 0) 6
   \<and> snd (snd (snd (messagePump_step (\<lambda>k. 99) RecvMemory ex_pump
        ((ex_topic 0)\<lparr>handed_over := Some 6\<rparr>) ex_heap))) ! 1 = ChanPutMessage (ex_chan 1) 10"
proof -
  let ?A = "messagePump_step (\<lambda>k. 99) RecvMemory ex_pump ((ex_topic 1)\<lparr>memoryMsgChan := [3]\<rparr>) ex_heap"
  let ?B = "messagePump_step (\<lambda>k. 99) RecvMemory ex_pump ((ex_topic 1)\<lparr>memoryMsgChan := [4]\<rparr>) ex_heap_deferred"
  let ?C = "messagePump_step (\<lambda>k. 99) RecvMemory ex_pump ((ex_topic 0)\<lparr>handed_over := Some 6\<rparr>) ex_heap"
  have ta: "pump_takes RecvMemory ex_pump ((ex_topic 1)\<lparr>memoryMsgChan := [3]\<rparr>) ex_heap =
              Some (3, (ex_topic 1)\<lparr>memoryMsgChan := []\<rparr>, ex_heap)"
    by (simp add: pump_takes_def ex_pump_def ex_topic_def)
  have tb: "pump_takes RecvMemory ex_pump ((ex_topic 1)\<lparr>memoryMsgChan := [4]\<rparr>) ex_heap_deferred =
              Some (4, (ex_topic 1)\<lparr>memoryMsgChan := []\<rparr>, ex_heap_deferred)"
    by (simp add: pump_takes_def ex_pump_def ex_topic_def)
  have tc: "pump_takes RecvMemory ex_pump ((ex_topic 0)\<lparr>handed_over := Some 6\<rparr>) ex_heap =
              Some (6, ex_topic 0, ex_heap)"
    by (simp add: pump_takes_def ex_pump_def ex_topic_def)
  have aa: "\<forall>m \<in> set (memoryMsgChan ((ex_topic 1)\<lparr>memoryMsgChan := [3]\<rparr>))
              \<union> set_option (handed_over ((ex_topic 1)\<lparr>memoryMsgChan := [3]\<rparr>)). m < next_ref ex_heap"
    by (simp add: ex_heap_def ex_topic_def)
  have ab: "\<forall>m \<in> set (memoryMsgChan ((ex_topic 1)\<lparr>memoryMsgChan := [4]\<rparr>))
              \<union> set_option (handed_over ((ex_topic 1)\<lparr>memoryMsgChan := [4]\<rparr>)).
              m < next_ref ex_heap_deferred"
    by (simp add: ex_heap_def ex_heap_deferred_def ex_topic_def)
  have ac: "\<forall>m \<in> set (memoryMsgChan ((ex_topic 0)\<lparr>handed_over := Some 6\<rparr>))
              \<union> set_option (handed_over ((ex_topic 0)\<lparr>handed_over := Some 6\<rparr>)). m < next_ref ex_heap"
    by (simp add: ex_heap_def ex_topic_def)
  have ea: "?A = (fst ?A, fst (snd ?A), fst (snd (snd ?A)), snd (snd (snd ?A)))" by simp
  have eb: "?B = (fst ?B, fst (snd ?B), fst (snd (snd ?B)), snd (snd (snd ?B)))" by simp
  have ec: "?C = (fst ?C, fst (snd ?C), fst (snd (snd ?C)), snd (snd (snd ?C)))" by simp
  have i2: "2 < length (pump_chans ex_pump)" and i1: "1 < length (pump_chans ex_pump)"
    and i0: "0 < length (pump_chans ex_pump)"
    by (simp_all add: ex_pump_def)
  from messagePump_fan_out [OF ta aa ea i2]
  have a: "snd (snd (snd ?A)) ! 2 = ChanPutMessage (ex_chan 2) 11
     \<and> Body (cells (fst (snd (snd ?A))) 11) = replicate 3 7
     \<and> Timestamp (cells (fst (snd (snd ?A))) 11) = 5"
    by (simp add: chan_ref_def ex_heap_def ex_msg_def ex_pump_def)
  from messagePump_fan_out [OF tb ab eb i1]
  have b: "snd (snd (snd ?B)) ! 1 = ChanPutMessageDeferred (ex_chan 1) 10 500
     \<and> deferred (cells (fst (snd (snd ?B))) 10) = 500"
    by (simp add: chan_ref_def ex_heap_def ex_heap_deferred_def ex_msg_def ex_pump_def)
  from messagePump_fan_out [OF tc ac ec i0]
  have c0: "snd (snd (snd ?C)) ! 0 = ChanPutMessage (ex_chan 0) 6"
    by (simp add: chan_ref_def ex_heap_def ex_msg_def ex_pump_def)
  from messagePump_fan_out [OF tc ac ec i1]
  have c1: "snd (snd (snd ?C)) ! 1 = ChanPutMessage (ex_chan 1) 10"
    by (simp add: chan_ref_def ex_heap_def ex_msg_def ex_pump_def)
  from a b c0 c1 show ?thesis by simp
qed

section \<open>Theorems: GenerateID\<close>

lemma GenerateID_complete:
  "after_failures NewGUID n f = Some fk \<Longrightarrow> NewGUID fk = (Inr g, f') \<Longrightarrow>
     GenerateID NewGUID Hex f = Some (Hex g, n, f')"
proof (induction n arbitrary: f)
  case 0
  then show ?case by (simp add: GenerateID.simps)
next
  case (Suc k)
  from Suc.prems(1) obtain err f1 where c: "NewGUID f = (Inl err, f1)"
    and a: "after_failures NewGUID k f1 = Some fk"
    by (auto split: prod.splits sum.splits)
  from Suc.IH [OF a Suc.prems(2)] c show ?case
    by (subst GenerateID.simps) simp
qed

lemma GenerateID_sound:
  "GenerateID NewGUID Hex f = Some (mid, n, f') \<Longrightarrow>
     \<exists>fk g. after_failures NewGUID n f = Some fk \<and> NewGUID fk = (Inr g, f') \<and> mid = Hex g"
proof (induction n arbitrary: f)
  case 0
  then show ?case
    by (subst (asm) GenerateID.simps)
       (auto split: prod.splits sum.splits Option.bind_splits)
next
  case (Suc k)
  from Suc.prems obtain err f1 where c: "NewGUID f = (Inl err, f1)"
    and r: "GenerateID NewGUID Hex f1 = Some (mid, k, f')"
    by (subst (asm) GenerateID.simps)
       (auto split: prod.splits sum.splits Option.bind_splits)
  from Suc.IH [OF r] c show ?case by simp
qed

lemma after_failures_stop:
  "after_failures NewGUID n f = Some fk \<Longrightarrow> NewGUID fk = (Inr g, f') \<Longrightarrow>
     after_failures NewGUID (Suc n) f = None"
proof (induction n arbitrary: f)
  case 0
  then show ?case by simp
next
  case (Suc k)
  from Suc.prems(1) obtain err f1 where c: "NewGUID f = (Inl err, f1)"
    and a: "after_failures NewGUID k f1 = Some fk"
    by (auto split: prod.splits sum.splits)
  from Suc.IH [OF a Suc.prems(2)] have "after_failures NewGUID (Suc k) f1 = None" .
  with c show ?case by simp
qed

text \<open>
  C8. \<^verbatim>\<open>GenerateID\<close> has no error result. It returns exactly when some call of
  \<open>NewGUID\<close> succeeds: after \<open>n\<close> failed calls, each followed by a sleep, and a call that
  yields the GUID \<open>g\<close>, it returns the hex form of \<open>g\<close>, and every value it returns
  arises so; while every call fails it keeps retrying and does not return.
\<close>

theorem GenerateID_retries:
  "(GenerateID NewGUID Hex f = Some (mid, n, f')
      \<longleftrightarrow> (\<exists>fk g. after_failures NewGUID n f = Some fk \<and> NewGUID fk = (Inr g, f') \<and> mid = Hex g))
   \<and> ((\<forall>k. after_failures NewGUID k f \<noteq> None) \<longrightarrow> GenerateID NewGUID Hex f = None)"
proof (intro conjI impI iffI)
  assume "GenerateID NewGUID Hex f = Some (mid, n, f')"
  then show "\<exists>fk g. after_failures NewGUID n f = Some fk \<and> NewGUID fk = (Inr g, f') \<and> mid = Hex g"
    by (rule GenerateID_sound)
next
  assume "\<exists>fk g. after_failures NewGUID n f = Some fk \<and> NewGUID fk = (Inr g, f') \<and> mid = Hex g"
  then show "GenerateID NewGUID Hex f = Some (mid, n, f')"
    by (auto intro: GenerateID_complete)
next
  assume never: "\<forall>k. after_failures NewGUID k f \<noteq> None"
  show "GenerateID NewGUID Hex f = None"
  proof (rule ccontr)
    assume "GenerateID NewGUID Hex f \<noteq> None"
    then obtain mid n f' where "GenerateID NewGUID Hex f = Some (mid, n, f')"
      by auto
    from GenerateID_sound [OF this] obtain fk g where
      a: "after_failures NewGUID n f = Some fk" and s: "NewGUID fk = (Inr g, f')"
      by blast
    from after_failures_stop [OF a s]
    have "after_failures NewGUID (Suc n) f = None" .
    with never show False by blast
  qed
qed

lemma ex_failing_never: "after_failures ex_failing k f = Some (f + k)"
  by (induction k arbitrary: f) (simp_all add: ex_failing_def)

theorem GenerateID_retries_witness:
  "GenerateID ex_NewGUID ex_Hex 0 = Some (ex_Hex 2, 2, 3)
   \<and> GenerateID ex_failing ex_Hex 0 = None"
proof -
  have a: "after_failures ex_NewGUID 2 0 = Some 2"
    by (simp add: ex_NewGUID_def numeral_2_eq_2)
  have s: "ex_NewGUID 2 = (Inr 2, 3)"
    by (simp add: ex_NewGUID_def)
  from a s have "\<exists>fk g. after_failures ex_NewGUID 2 0 = Some fk \<and> ex_NewGUID fk = (Inr g, 3)
      \<and> ex_Hex 2 = ex_Hex g"
    by blast
  with GenerateID_retries [of ex_NewGUID ex_Hex 0 "ex_Hex 2" 2 3]
  have one: "GenerateID ex_NewGUID ex_Hex 0 = Some (ex_Hex 2, 2, 3)"
    by blast
  have "\<forall>k. after_failures ex_failing k 0 \<noteq> None"
    by (simp add: ex_failing_never)
  with GenerateID_retries [of ex_failing ex_Hex 0]
  have two: "GenerateID ex_failing ex_Hex 0 = None"
    by blast
  from one two show ?thesis by simp
qed

section \<open>Theorems: the worker pool\<close>

lemma resizePool_loop_reaches:
  assumes "0 \<le> ideal" and "0 \<le> poolSize n" and "workers n = nat (poolSize n)"
  shows "resizePool_loop ideal n = Some (n\<lparr>workers := nat ideal, poolSize := ideal\<rparr>)"
  using assms
proof (induction ideal n rule: resizePool_loop.induct)
  case (1 ideal n)
  show ?case
  proof (cases "ideal = poolSize n")
    case True
    with "1.prems" show ?thesis by simp
  next
    case False
    show ?thesis
    proof (cases "ideal < poolSize n")
      case True
      with "1.prems" have w: "workers n \<noteq> 0" by simp
      from True "1.prems" w
      have "resizePool_loop ideal (n\<lparr>workers := workers n - 1, poolSize := poolSize n - 1\<rparr>) =
            Some (n\<lparr>workers := nat ideal, poolSize := ideal\<rparr>)"
        using "1.IH"(1) [OF False True w] by (simp add: nat_diff_distrib)
      with False True w show ?thesis by (subst resizePool_loop.simps) simp
    next
      case lt: False
      from lt False "1.prems"
      have "resizePool_loop ideal (n\<lparr>workers := Suc (workers n), poolSize := poolSize n + 1\<rparr>) =
            Some (n\<lparr>workers := nat ideal, poolSize := ideal\<rparr>)"
        using "1.IH"(2) [OF False lt] by (simp add: nat_add_distrib)
      with False lt show ?thesis by (subst resizePool_loop.simps) simp
    qed
  qed
qed

lemma idealPoolSize_clamp:
  "1 \<le> QueueScanWorkerPoolMax os \<Longrightarrow>
     idealPoolSize os num = spec_clamp 1 (int (num div 4)) (QueueScanWorkerPoolMax os)"
  by (auto simp: idealPoolSize_def spec_clamp_def Let_def)

lemma queueScanWorker_close:
  "queueScanWorker pif pdq (map (\<lambda>(c, now). WorkRecv c now) ws @ CloseRecv # rest) =
     (map (\<lambda>(c, now). pif c now \<or> pdq c now) ws, Some rest)"
  by (induction ws) (auto simp: Let_def)

text \<open>
  C5. When \<^verbatim>\<open>QueueScanWorkerPoolMax\<close> is at least 1: for every slice length \<open>num\<close>,
  with as many live workers as the pool size says, \<^verbatim>\<open>resizePool\<close> terminates with
  the pool size equal to \<open>num div 4\<close> raised to at least 1 and capped at
  \<^verbatim>\<open>QueueScanWorkerPoolMax\<close>, and with as many live workers: every send on
  \<^verbatim>\<open>closeCh\<close> has retired exactly one. A worker returns exactly when it receives from
  \<^verbatim>\<open>closeCh\<close>, having answered every channel it received before, and it consumes that
  one signal only.
\<close>

theorem resizePool_size:
  assumes "1 \<le> QueueScanWorkerPoolMax (opts n)" and "num < 2 ^ 53"
    and "0 \<le> poolSize n" and "workers n = nat (poolSize n)"
  shows "resizePool n num =
           Some (n\<lparr>workers := nat (spec_clamp 1 (int (num div 4)) (QueueScanWorkerPoolMax (opts n))),
                   poolSize := spec_clamp 1 (int (num div 4)) (QueueScanWorkerPoolMax (opts n))\<rparr>)
       \<and> 1 \<le> spec_clamp 1 (int (num div 4)) (QueueScanWorkerPoolMax (opts n))
       \<and> spec_clamp 1 (int (num div 4)) (QueueScanWorkerPoolMax (opts n)) \<le> QueueScanWorkerPoolMax (opts n)
       \<and> queueScanWorker pif pdq (map (\<lambda>(c, now). WorkRecv c now) ws @ CloseRecv # rest) =
           (map (\<lambda>(c, now). pif c now \<or> pdq c now) ws, Some rest)"
proof -
  let ?k = "spec_clamp 1 (int (num div 4)) (QueueScanWorkerPoolMax (opts n))"
  from assms(1) have b: "1 \<le> ?k" "?k \<le> QueueScanWorkerPoolMax (opts n)"
    by (simp_all add: spec_clamp_def)
  then have "0 \<le> ?k" by simp
  from resizePool_loop_reaches [OF this assms(3,4)] idealPoolSize_clamp [OF assms(1), of num]
  have "resizePool n num = Some (n\<lparr>workers := nat ?k, poolSize := ?k\<rparr>)"
    by (simp add: resizePool_def)
  with b queueScanWorker_close [of pif pdq ws rest] show ?thesis by simp
qed

theorem resizePool_size_witness:
  "resizePool (ex_nsqd 4 0.25) 100 = Some ((ex_nsqd 4 0.25)\<lparr>workers := 4, poolSize := 4\<rparr>)
   \<and> resizePool ((ex_nsqd 4 0.25)\<lparr>workers := 4, poolSize := 4\<rparr>) 9 =
       Some ((ex_nsqd 4 0.25)\<lparr>workers := 2, poolSize := 2\<rparr>)
   \<and> queueScanWorker (\<lambda>c now. chan_id c = 1) (\<lambda>c now. False)
        [WorkRecv (ex_chan 0) 5, WorkRecv (ex_chan 1) 6, CloseRecv, CloseRecv] =
       ([False, True], Some [CloseRecv])"
proof -
  have h1: "1 \<le> QueueScanWorkerPoolMax (opts (ex_nsqd 4 0.25))"
    "0 \<le> poolSize (ex_nsqd 4 0.25)" "workers (ex_nsqd 4 0.25) = nat (poolSize (ex_nsqd 4 0.25))"
    by (simp_all add: ex_nsqd_def ex_opts_def)
  have h2: "1 \<le> QueueScanWorkerPoolMax (opts ((ex_nsqd 4 0.25)\<lparr>workers := 4, poolSize := 4\<rparr>))"
    "0 \<le> poolSize ((ex_nsqd 4 0.25)\<lparr>workers := 4, poolSize := 4\<rparr>)"
    "workers ((ex_nsqd 4 0.25)\<lparr>workers := 4, poolSize := 4\<rparr>) =
       nat (poolSize ((ex_nsqd 4 0.25)\<lparr>workers := 4, poolSize := 4\<rparr>))"
    by (simp_all add: ex_nsqd_def ex_opts_def)
  have n1: "(100::nat) < 2 ^ 53" and n2: "(9::nat) < 2 ^ 53" by simp_all
  from resizePool_size [OF h1(1) n1 h1(2,3),
      of "\<lambda>c now. chan_id c = 1" "\<lambda>c now. False" "[(ex_chan 0, 5), (ex_chan 1, 6)]" "[CloseRecv]"]
  have a: "resizePool (ex_nsqd 4 0.25) 100 = Some ((ex_nsqd 4 0.25)\<lparr>workers := 4, poolSize := 4\<rparr>)
     \<and> queueScanWorker (\<lambda>c now. chan_id c = 1) (\<lambda>c now. False)
        [WorkRecv (ex_chan 0) 5, WorkRecv (ex_chan 1) 6, CloseRecv, CloseRecv] =
       ([False, True], Some [CloseRecv])"
    by (simp add: spec_clamp_def ex_nsqd_def ex_opts_def ex_chan_def)
  from resizePool_size [OF h2(1) n2 h2(2,3)]
  have b: "resizePool ((ex_nsqd 4 0.25)\<lparr>workers := 4, poolSize := 4\<rparr>) 9 =
       Some ((ex_nsqd 4 0.25)\<lparr>workers := 2, poolSize := 2\<rparr>)"
    by (simp add: spec_clamp_def ex_nsqd_def ex_opts_def)
  from a b show ?thesis by (simp add: ex_chan_def)
qed

theorem resizePool_size_counterexample:
  "resizePool (ex_nsqd 0 0.25) 0 = Some ((ex_nsqd 0 0.25)\<lparr>workers := 1, poolSize := 1\<rparr>)
   \<and> spec_clamp 1 (int (0 div 4)) (QueueScanWorkerPoolMax (opts (ex_nsqd 0 0.25))) = 0
   \<and> resizePool ((ex_nsqd 0 0.25)\<lparr>workers := 1, poolSize := 1\<rparr>) 8 = Some (ex_nsqd 0 0.25)
   \<and> poolSize (ex_nsqd 0 0.25) = 0
   \<and> resizePool (ex_nsqd (- 1) 0.25) 8 = None"
  by (simp add: resizePool_def idealPoolSize_def spec_clamp_def ex_nsqd_def ex_opts_def)

section \<open>Theorems: the queue-scan loop\<close>

lemma count_dirty_le: "count_dirty k rs = Some d \<Longrightarrow> d \<le> k"
proof (induction k rs arbitrary: d rule: count_dirty.induct)
  case (1 rs)
  then show ?case by simp
next
  case (2 k)
  then show ?case by simp
next
  case (3 k r rs)
  then show ?case by (fastforce split: option.splits if_splits)
qed

lemma count_dirty_counts:
  "k \<le> length rs \<Longrightarrow> count_dirty k rs = Some (count_list (take k rs) True)"
proof (induction k rs rule: count_dirty.induct)
  case (1 rs)
  then show ?case by simp
next
  case (2 k)
  then show ?case by simp
next
  case (3 k r rs)
  then show ?case by simp
qed

lemma count_list_True_pos: "0 < count_list xs True \<longleftrightarrow> (\<exists>r \<in> set xs. r)"
  by (induction xs) auto

text \<open>
  C6. A sampling pass over \<open>num > 0\<close> channels reads \<open>num\<close> responses, and \<open>numDirty\<close>
  is the number of those that are true. After it the loop is at the label \<^verbatim>\<open>loop\<close>
  again, starting the next pass with no \<^verbatim>\<open>select\<close> in between and with its state
  unchanged, if and only if the \<^verbatim>\<open>float64\<close> quotient \<open>numDirty / num\<close> exceeds
  \<^verbatim>\<open>QueueScanDirtyPercent\<close>; otherwise it is at the \<^verbatim>\<open>select\<close>, which only a tick of
  the work ticker leaves towards a pass. With a threshold of 1 it is always at the
  \<^verbatim>\<open>select\<close>; with a threshold of 0 it repeats at once exactly when one of the
  \<open>num\<close> responses read was dirty.
\<close>

theorem queueScanLoop_dirty_repeat:
  assumes "float64_quotient rnd" and "0 < scan_num s" and "scan_num s < 2 ^ 63"
    and "scan_pc s = AtLoop"
    and "nat (scan_num s) \<le> length rs"
    and "list_all (\<lambda>i. i < length (channels s)) idxs"
  shows "\<exists>s'. queueScanLoop_pass rnd idxs rs s = Some (map (\<lambda>i. channels s ! i) idxs, s')
       \<and> s' =
           (if rnd (real (count_list (take (nat (scan_num s)) rs) True) / real_of_int (scan_num s))
               > QueueScanDirtyPercent (opts (nsqd s))
            then s else s\<lparr>scan_pc := AtSelect\<rparr>)
       \<and> (scan_pc s' = AtLoop \<longleftrightarrow>
            rnd (real (count_list (take (nat (scan_num s)) rs) True) / real_of_int (scan_num s))
              > QueueScanDirtyPercent (opts (nsqd s)))
       \<and> (scan_pc s' \<noteq> AtLoop \<longrightarrow> scan_pc s' = AtSelect)
       \<and> (QueueScanDirtyPercent (opts (nsqd s)) = 1 \<longrightarrow> scan_pc s' = AtSelect)
       \<and> (QueueScanDirtyPercent (opts (nsqd s)) = 0 \<longrightarrow>
            (scan_pc s' = AtLoop \<longleftrightarrow> (\<exists>r \<in> set (take (nat (scan_num s)) rs). r)))
       \<and> (scan_pc s' = AtSelect \<longrightarrow> queueScanLoop_select ev s' = Some s'' \<longrightarrow>
            scan_pc s'' = AtLoop \<longrightarrow> ev = WorkTick)
       \<and> (scan_pc s' = AtSelect \<longrightarrow>
            queueScanLoop_select WorkTick s' =
              Some (if channels s = [] then s'
                    else s'\<lparr>scan_num := min (QueueScanSelectionCount (opts (nsqd s)))
                                           (int (length (channels s))),
                            scan_pc := AtLoop\<rparr>))"
proof -
  let ?d = "count_list (take (nat (scan_num s)) rs) True"
  let ?q = "rnd (real ?d / real_of_int (scan_num s))"
  let ?p = "QueueScanDirtyPercent (opts (nsqd s))"
  let ?s' = "if ?q > ?p then s else s\<lparr>scan_pc := AtSelect\<rparr>"
  from assms(2) have nz: "scan_num s \<noteq> 0" by simp
  have cd: "count_dirty (nat (scan_num s)) rs = Some ?d"
    using assms(5) by (rule count_dirty_counts)
  from cd nz assms(6)
  have pass: "queueScanLoop_pass rnd idxs rs s = Some (map (\<lambda>i. channels s ! i) idxs, ?s')"
    by (simp add: queueScanLoop_pass_def)
  have pc: "scan_pc ?s' = (if ?q > ?p then AtLoop else AtSelect)"
    using assms(4) by simp
  from count_dirty_le [OF cd] have le: "?d \<le> nat (scan_num s)" .
  from assms(2) have r: "real_of_int (scan_num s) = real (nat (scan_num s))" by simp
  from assms(2,3) have b: "0 < nat (scan_num s)" "nat (scan_num s) < 2 ^ 63"
    by (simp_all add: nat_less_iff)
  from assms(1) b le have up: "?q \<le> 1"
    unfolding float64_quotient_def r by blast
  from assms(1) b have pos: "0 < ?d \<Longrightarrow> 0 < ?q"
    unfolding float64_quotient_def r by blast
  from assms(1) have z0: "rnd 0 = 0" by (simp add: float64_quotient_def)
  have zero: "?d = 0 \<Longrightarrow> ?q = 0" using z0 by simp
  have dirty: "0 < ?d \<longleftrightarrow> (\<exists>r \<in> set (take (nat (scan_num s)) rs). r)"
    by (rule count_list_True_pos)
  have p0: "?p = 0 \<longrightarrow> (scan_pc ?s' = AtLoop \<longleftrightarrow> (\<exists>r \<in> set (take (nat (scan_num s)) rs). r))"
  proof
    assume e: "?p = 0"
    show "scan_pc ?s' = AtLoop \<longleftrightarrow> (\<exists>r \<in> set (take (nat (scan_num s)) rs). r)"
    proof (cases "0 < ?d")
      case True
      with pos e pc dirty show ?thesis by simp
    next
      case False
      then have "?d = 0" by simp
      with zero e pc dirty show ?thesis by simp
    qed
  qed
  have sel: "scan_pc ?s' = AtSelect \<longrightarrow> queueScanLoop_select ev ?s' = Some s'' \<longrightarrow>
            scan_pc s'' = AtLoop \<longrightarrow> ev = WorkTick"
    by (auto simp: queueScanLoop_select_def Let_def split: scan_event.splits if_splits option.splits)
  have tick: "scan_pc ?s' = AtSelect \<longrightarrow>
            queueScanLoop_select WorkTick ?s' =
              Some (if channels s = [] then ?s'
                    else ?s'\<lparr>scan_num := min (QueueScanSelectionCount (opts (nsqd s)))
                                           (int (length (channels s))),
                            scan_pc := AtLoop\<rparr>)"
    by (auto simp: queueScanLoop_select_def Let_def min_def)
  have p1: "?p = 1 \<longrightarrow> scan_pc ?s' = AtSelect" using pc up by simp
  have iff: "scan_pc ?s' = AtLoop \<longleftrightarrow> ?q > ?p" using pc by simp
  have other: "scan_pc ?s' \<noteq> AtLoop \<longrightarrow> scan_pc ?s' = AtSelect" using pc by simp
  from pass iff other p1 p0 sel tick show ?thesis by blast
qed

lemma exact_quotient: "float64_quotient (\<lambda>x. x)"
  by (simp add: float64_quotient_def)

theorem queueScanLoop_dirty_repeat_witness:
  "queueScanLoop_pass (\<lambda>x. x) [2, 0, 3, 1] [True, True, False, False] (ex_scan 0.25) =
     Some ([ex_chan 2, ex_chan 0, ex_chan 3, ex_chan 1], ex_scan 0.25)
   \<and> queueScanLoop_pass (\<lambda>x. x) [2, 0, 3, 1] [True, True, False, False] (ex_scan 0.5) =
     Some ([ex_chan 2, ex_chan 0, ex_chan 3, ex_chan 1], (ex_scan 0.5)\<lparr>scan_pc := AtSelect\<rparr>)
   \<and> queueScanLoop_pass (\<lambda>x. x) [2, 0, 3, 1] [True, True, True, True] (ex_scan 1) =
     Some ([ex_chan 2, ex_chan 0, ex_chan 3, ex_chan 1], (ex_scan 1)\<lparr>scan_pc := AtSelect\<rparr>)
   \<and> queueScanLoop_pass (\<lambda>x. x) [2, 0, 3, 1] [False, False, False, True, True] (ex_scan 0) =
     Some ([ex_chan 2, ex_chan 0, ex_chan 3, ex_chan 1], ex_scan 0)
   \<and> queueScanLoop_pass (\<lambda>x. x) [2, 0, 3, 1] [False, False, False, False, True] (ex_scan 0) =
     Some ([ex_chan 2, ex_chan 0, ex_chan 3, ex_chan 1], (ex_scan 0)\<lparr>scan_pc := AtSelect\<rparr>)
   \<and> queueScanLoop_select WorkTick ((ex_scan 1)\<lparr>scan_pc := AtSelect\<rparr>) = Some (ex_scan 1)
   \<and> queueScanLoop_select ExitSignal ((ex_scan 1)\<lparr>scan_pc := AtSelect\<rparr>) =
       Some ((ex_scan 1)\<lparr>scan_pc := AtExit\<rparr>)
   \<and> queueScanLoop_select (RefreshTick [ex_chan 7]) ((ex_scan 1)\<lparr>scan_pc := AtSelect\<rparr>) =
       Some ((ex_scan 1)\<lparr>scan_pc := AtSelect, channels := [ex_chan 7],
                          nsqd := (ex_nsqd 4 1)\<lparr>workers := 1, poolSize := 1\<rparr>\<rparr>)
   \<and> queueScanLoop_pass (\<lambda>x. x) [] [True] ((ex_scan (- 1))\<lparr>scan_num := 0\<rparr>) =
       Some ([], (ex_scan (- 1))\<lparr>scan_num := 0, scan_pc := AtSelect\<rparr>)"
proof -
  have n: "0 < scan_num (ex_scan p)" "scan_num (ex_scan p) < 2 ^ 63" "scan_pc (ex_scan p) = AtLoop"
    "list_all (\<lambda>i. i < length (channels (ex_scan p))) [2, 0, 3, 1]" for p
    by (simp_all add: ex_scan_def)
  have l4: "nat (scan_num (ex_scan p)) \<le> length [a, b, c, d]"
    and l5: "nat (scan_num (ex_scan p)) \<le> length [a, b, c, d, e]" for p and a b c d e :: bool
    by (simp_all add: ex_scan_def)
  have ch: "map (\<lambda>i. channels (ex_scan p) ! i) [2, 0, 3, 1] =
      [ex_chan 2, ex_chan 0, ex_chan 3, ex_chan 1]" for p
    by (simp add: ex_scan_def)
  have sel: "queueScanLoop_select WorkTick ((ex_scan 1)\<lparr>scan_pc := AtSelect\<rparr>) = Some (ex_scan 1)"
    by (simp add: queueScanLoop_select_def ex_scan_def ex_nsqd_def ex_opts_def)
  from queueScanLoop_dirty_repeat [where s = "ex_scan 0.25" and rs = "[True, True, False, False]"
      and idxs = "[2, 0, 3, 1]" and rnd = "\<lambda>x. x", OF exact_quotient n(1) n(2) n(3) l4 n(4)] ch [of "0.25"]
  have a: "queueScanLoop_pass (\<lambda>x. x) [2, 0, 3, 1] [True, True, False, False] (ex_scan 0.25) =
     Some ([ex_chan 2, ex_chan 0, ex_chan 3, ex_chan 1], ex_scan 0.25)"
    by (simp add: ex_scan_def ex_nsqd_def ex_opts_def)
  from queueScanLoop_dirty_repeat [where s = "ex_scan 0.5" and rs = "[True, True, False, False]"
      and idxs = "[2, 0, 3, 1]" and rnd = "\<lambda>x. x", OF exact_quotient n(1) n(2) n(3) l4 n(4)] ch [of "0.5"]
  have b: "queueScanLoop_pass (\<lambda>x. x) [2, 0, 3, 1] [True, True, False, False] (ex_scan 0.5) =
     Some ([ex_chan 2, ex_chan 0, ex_chan 3, ex_chan 1], (ex_scan 0.5)\<lparr>scan_pc := AtSelect\<rparr>)"
    by (simp add: ex_scan_def ex_nsqd_def ex_opts_def)
  from queueScanLoop_dirty_repeat [where s = "ex_scan 1" and rs = "[True, True, True, True]"
      and idxs = "[2, 0, 3, 1]" and rnd = "\<lambda>x. x", OF exact_quotient n(1) n(2) n(3) l4 n(4)] ch [of "1"]
  have c: "queueScanLoop_pass (\<lambda>x. x) [2, 0, 3, 1] [True, True, True, True] (ex_scan 1) =
     Some ([ex_chan 2, ex_chan 0, ex_chan 3, ex_chan 1], (ex_scan 1)\<lparr>scan_pc := AtSelect\<rparr>)"
    by (simp add: ex_scan_def ex_nsqd_def ex_opts_def)
  from queueScanLoop_dirty_repeat [where s = "ex_scan 0" and rs = "[False, False, False, True, True]"
      and idxs = "[2, 0, 3, 1]" and rnd = "\<lambda>x. x", OF exact_quotient n(1) n(2) n(3) l5 n(4)] ch [of "0"]
  have d: "queueScanLoop_pass (\<lambda>x. x) [2, 0, 3, 1] [False, False, False, True, True] (ex_scan 0) =
     Some ([ex_chan 2, ex_chan 0, ex_chan 3, ex_chan 1], ex_scan 0)"
    by (simp add: ex_scan_def ex_nsqd_def ex_opts_def)
  from queueScanLoop_dirty_repeat [where s = "ex_scan 0" and rs = "[False, False, False, False, True]"
      and idxs = "[2, 0, 3, 1]" and rnd = "\<lambda>x. x", OF exact_quotient n(1) n(2) n(3) l5 n(4)] ch [of "0"]
  have e: "queueScanLoop_pass (\<lambda>x. x) [2, 0, 3, 1] [False, False, False, False, True] (ex_scan 0) =
     Some ([ex_chan 2, ex_chan 0, ex_chan 3, ex_chan 1], (ex_scan 0)\<lparr>scan_pc := AtSelect\<rparr>)"
    by (simp add: ex_scan_def ex_nsqd_def ex_opts_def)
  have ex: "queueScanLoop_select ExitSignal ((ex_scan 1)\<lparr>scan_pc := AtSelect\<rparr>) =
       Some ((ex_scan 1)\<lparr>scan_pc := AtExit\<rparr>)"
    by (simp add: queueScanLoop_select_def ex_scan_def)
  have rf: "queueScanLoop_select (RefreshTick [ex_chan 7]) ((ex_scan 1)\<lparr>scan_pc := AtSelect\<rparr>) =
       Some ((ex_scan 1)\<lparr>scan_pc := AtSelect, channels := [ex_chan 7],
                          nsqd := (ex_nsqd 4 1)\<lparr>workers := 1, poolSize := 1\<rparr>\<rparr>)"
    by (simp add: queueScanLoop_select_def resizePool_def idealPoolSize_def ex_scan_def
        ex_nsqd_def ex_opts_def)
  have nan: "queueScanLoop_pass (\<lambda>x. x) [] [True] ((ex_scan (- 1))\<lparr>scan_num := 0\<rparr>) =
       Some ([], (ex_scan (- 1))\<lparr>scan_num := 0, scan_pc := AtSelect\<rparr>)"
    by (simp add: queueScanLoop_pass_def ex_scan_def)
  from a b c d e sel ex rf nan show ?thesis by simp
qed

section \<open>Theorems: the topic registry\<close>

lemma precreate_topicMap: "topicMap (precreate cs t n) = topicMap n"
  by (induction cs arbitrary: n) (auto simp: Let_def split: prod.splits)

lemma GetTopic_finish_topicMap: "topicMap (GetTopic_finish lookupd t n) = topicMap n"
  by (simp add: GetTopic_finish_def Let_def precreate_topicMap)

lemma GetTopic_create_lookup:
  "GetTopic_create nb n nm = ((t, created), n') \<Longrightarrow>
     fmlookup (topicMap n') nm = Some t
     \<and> (\<forall>k x. fmlookup (topicMap n) k = Some x \<longrightarrow> fmlookup (topicMap n') k = Some x)
     \<and> (created \<longleftrightarrow> fmlookup (topicMap n) nm = None)
     \<and> (created \<longrightarrow> t = next_topic n)"
  by (auto simp: GetTopic_create_def Let_def split: option.splits)

lemma GetTopic_step_inv:
  assumes "GetTopic_step nb lk nm p n = (p', n')"
    and "\<forall>t. p = AtFinish t \<or> p = Returned t \<longrightarrow> fmlookup (topicMap n) nm = Some t"
  shows "(\<forall>t. p' = AtFinish t \<or> p' = Returned t \<longrightarrow> fmlookup (topicMap n') nm = Some t)
       \<and> (\<forall>k x. fmlookup (topicMap n) k = Some x \<longrightarrow> fmlookup (topicMap n') k = Some x)"
proof (cases p)
  case AtRLock
  with assms show ?thesis
    by (auto simp: GetTopic_step_def GetTopic_read_def split: option.splits)
next
  case AtLock
  obtain t created n1 where c: "GetTopic_create nb n nm = ((t, created), n1)"
    by (metis prod.exhaust)
  from GetTopic_create_lookup [OF c] c AtLock assms(1) show ?thesis
    by (auto simp: GetTopic_step_def split: if_splits)
next
  case (AtFinish t)
  with assms show ?thesis
    by (auto simp: GetTopic_step_def GetTopic_finish_topicMap)
next
  case (Returned t)
  with assms show ?thesis
    by (auto simp: GetTopic_step_def)
qed

lemma run_schedule_registered:
  "registered names (pcs, n) \<Longrightarrow> registered names (run_schedule nb lk names sched (pcs, n))"
proof (induction sched arbitrary: pcs n)
  case Nil
  then show ?case by simp
next
  case (Cons i sched)
  show ?case
  proof (cases "i < length pcs")
    case False
    with Cons show ?thesis by simp
  next
    case True
    obtain p n' where st: "GetTopic_step nb lk (names ! i) (pcs ! i) n = (p, n')"
      by (metis prod.exhaust)
    from Cons.prems True
    have pre: "\<forall>t. pcs ! i = AtFinish t \<or> pcs ! i = Returned t
                 \<longrightarrow> fmlookup (topicMap n) (names ! i) = Some t"
      by (simp add: registered_def)
    note S = GetTopic_step_inv [OF st pre]
    have "registered names (pcs[i := p], n')"
      unfolding registered_def
    proof (intro conjI allI impI)
      show "length (fst (pcs[i := p], n')) = length names"
        using Cons.prems by (simp add: registered_def)
    next
      fix j t
      assume j: "j < length names"
        and pj: "fst (pcs[i := p], n') ! j = AtFinish t \<or> fst (pcs[i := p], n') ! j = Returned t"
      show "fmlookup (topicMap (snd (pcs[i := p], n'))) (names ! j) = Some t"
      proof (cases "j = i")
        case True
        with pj \<open>i < length pcs\<close> S show ?thesis by auto
      next
        case False
        with pj have "pcs ! j = AtFinish t \<or> pcs ! j = Returned t" by simp
        with Cons.prems j have "fmlookup (topicMap n) (names ! j) = Some t"
          by (auto simp: registered_def)
        with S show ?thesis by simp
      qed
    qed
    from Cons.IH [OF this] True st show ?thesis by simp
  qed
qed

lemma GetTopic_as_steps:
  "run_schedule nb lk [nm] [0, 0, 0] ([AtRLock], n) =
     ([Returned (fst (GetTopic nb lk n nm))], snd (GetTopic nb lk n nm))"
  by (auto simp: GetTopic_def GetTopic_step_def GetTopic_read_def Let_def
      split: option.splits prod.splits)

lemma GetTopic_registers:
  assumes "GetTopic nb lk n nm = (t, n')"
  shows "fmlookup (topicMap n') nm = Some t
       \<and> (\<forall>k x. fmlookup (topicMap n) k = Some x \<longrightarrow> fmlookup (topicMap n') k = Some x)
       \<and> (fmlookup (topicMap n) nm = None \<longrightarrow> t = next_topic n)"
proof (cases "fmlookup (topicMap n) nm")
  case (Some x)
  with assms show ?thesis by (simp add: GetTopic_def GetTopic_read_def)
next
  case None
  obtain t1 created n1 where c: "GetTopic_create nb n nm = ((t1, created), n1)"
    by (metis prod.exhaust)
  from GetTopic_create_lookup [OF c] None have cr: created by simp
  with assms None c have "t = t1" and "topicMap n' = topicMap n1"
    by (auto simp: GetTopic_def GetTopic_read_def GetTopic_finish_topicMap)
  with GetTopic_create_lookup [OF c] cr show ?thesis by simp
qed

text \<open>
  C10. \<^verbatim>\<open>GetTopic\<close> never creates a duplicate. A call registers the topic it returns
  under the name asked for and leaves every other registration as it was; a second call
  with the same name returns the same topic and changes nothing. For concurrent calls,
  whatever the order in which they take the read lock and the write lock, two calls
  with the same name that have returned have returned the same topic, the one
  registered under the name; a call runs as its three sections in a row.
\<close>

theorem GetTopic_no_duplicate:
  assumes "GetTopic nb lk n nm = (t, n')"
  shows "fmlookup (topicMap n') nm = Some t
       \<and> GetTopic nb lk n' nm = (t, n')
       \<and> (\<forall>k x. fmlookup (topicMap n) k = Some x \<longrightarrow> fmlookup (topicMap n') k = Some x)
       \<and> run_schedule nb lk [nm] [0, 0, 0] ([AtRLock], n) = ([Returned t], n')
       \<and> (run_schedule nb lk names sched (replicate (length names) AtRLock, n0) = (pcs, n1) \<longrightarrow>
            i < length names \<longrightarrow> j < length names \<longrightarrow> names ! i = names ! j \<longrightarrow>
            pcs ! i = Returned ti \<longrightarrow> pcs ! j = Returned tj \<longrightarrow>
            ti = tj \<and> fmlookup (topicMap n1) (names ! i) = Some ti)"
proof -
  note R = GetTopic_registers [OF assms]
  from R have again: "GetTopic nb lk n' nm = (t, n')"
    by (simp add: GetTopic_def GetTopic_read_def)
  from GetTopic_as_steps [of nb lk nm n] assms
  have steps: "run_schedule nb lk [nm] [0, 0, 0] ([AtRLock], n) = ([Returned t], n')"
    by simp
  have conc: "run_schedule nb lk names sched (replicate (length names) AtRLock, n0) = (pcs, n1) \<longrightarrow>
            i < length names \<longrightarrow> j < length names \<longrightarrow> names ! i = names ! j \<longrightarrow>
            pcs ! i = Returned ti \<longrightarrow> pcs ! j = Returned tj \<longrightarrow>
            ti = tj \<and> fmlookup (topicMap n1) (names ! i) = Some ti"
  proof (intro impI)
    assume run: "run_schedule nb lk names sched (replicate (length names) AtRLock, n0) = (pcs, n1)"
      and i: "i < length names" and j: "j < length names" and same: "names ! i = names ! j"
      and pi: "pcs ! i = Returned ti" and pj: "pcs ! j = Returned tj"
    have "registered names (replicate (length names) AtRLock, n0)"
      by (simp add: registered_def)
    from run_schedule_registered [OF this, of nb lk sched] run
    have reg: "registered names (pcs, n1)" by simp
    from reg i pi have a: "fmlookup (topicMap n1) (names ! i) = Some ti"
      by (auto simp: registered_def)
    from reg j pj have b: "fmlookup (topicMap n1) (names ! j) = Some tj"
      by (auto simp: registered_def)
    from a b same show "ti = tj \<and> fmlookup (topicMap n1) (names ! i) = Some ti" by simp
  qed
  from R again steps conc show ?thesis by blast
qed

theorem GetTopic_no_duplicate_witness:
  "fst (GetTopic ex_newBackend ex_lookupd (ex_nsqd 4 0.25) ''foo'') = 0
   \<and> fmlookup (topicMap (snd (GetTopic ex_newBackend ex_lookupd (ex_nsqd 4 0.25) ''foo''))) ''foo'' = Some 0
   \<and> GetTopic ex_newBackend ex_lookupd
        (snd (GetTopic ex_newBackend ex_lookupd (ex_nsqd 4 0.25) ''foo'')) ''foo'' =
       (0, snd (GetTopic ex_newBackend ex_lookupd (ex_nsqd 4 0.25) ''foo''))
   \<and> fst (run_schedule ex_newBackend ex_lookupd [''foo'', ''foo''] [0, 1, 0, 1, 0, 1]
        ([AtRLock, AtRLock], ex_nsqd 4 0.25)) = [Returned 0, Returned 0]
   \<and> fmlookup (topicMap (snd (run_schedule ex_newBackend ex_lookupd [''foo'', ''foo''] [0, 1, 0, 1, 0, 1]
        ([AtRLock, AtRLock], ex_nsqd 4 0.25)))) ''foo'' = Some 0"
proof -
  let ?G = "GetTopic ex_newBackend ex_lookupd (ex_nsqd 4 0.25) ''foo''"
  let ?R = "run_schedule ex_newBackend ex_lookupd [''foo'', ''foo''] [0, 1, 0, 1, 0, 1]
        ([AtRLock, AtRLock], ex_nsqd 4 0.25)"
  have g0: "fst ?G = 0"
    by (simp add: GetTopic_def GetTopic_read_def GetTopic_create_def ex_nsqd_def Let_def)
  then have g: "?G = (0, snd ?G)" by (metis prod.collapse)
  have r0: "fst ?R = [Returned 0, Returned 0]"
    by (simp add: GetTopic_step_def GetTopic_read_def GetTopic_create_def ex_nsqd_def Let_def
        GetTopic_finish_topicMap)
  then have r: "run_schedule ex_newBackend ex_lookupd [''foo'', ''foo''] [0, 1, 0, 1, 0, 1]
        (replicate (length [''foo'', ''foo'']) AtRLock, ex_nsqd 4 0.25) = ([Returned 0, Returned 0], snd ?R)"
    by (metis (no_types, lifting) prod.collapse length_Cons list.size(3) replicate.simps One_nat_def
        numeral_2_eq_2 replicate_Suc replicate_0)
  from GetTopic_no_duplicate [OF g, of "[''foo'', ''foo'']" "[0, 1, 0, 1, 0, 1]" "ex_nsqd 4 0.25"
      "[Returned 0, Returned 0]" "snd ?R" 0 1 0 0] r
  have "fmlookup (topicMap (snd ?G)) ''foo'' = Some 0
      \<and> GetTopic ex_newBackend ex_lookupd (snd ?G) ''foo'' = (0, snd ?G)
      \<and> fmlookup (topicMap (snd ?R)) ''foo'' = Some 0"
    by simp
  with g0 r0 show ?thesis by simp
qed

end
